theory Spec2Isabelle
  imports Complex_Main
begin

section \<open>Training orchestration of torchdeepretina: a shallow embedding\<close>

text \<open>
  The theory embeds the control logic of \<^verbatim>\<open>torchdeepretina/training.py\<close>: the early
  stopping monitor \<^verbatim>\<open>Trainer.stop_early\<close>, the hyperparameter queue builder
  \<^verbatim>\<open>fill_hyper_q\<close>, the construction of the optimisation objects
  \<^verbatim>\<open>get_optim_objs\<close>, the run entry \<^verbatim>\<open>Trainer.train\<close> with the sweep loop of
  \<^verbatim>\<open>hyper_search\<close>, and the epoch loop of \<^verbatim>\<open>Trainer.train_loop\<close>.
  Numeric collaborators (model, data distributor, loss, scheduler, attribution) are
  inputs of the embedding: what they return is given, what the orchestration does with
  it is modelled.
\<close>

subsection \<open>Python values\<close>

text \<open>
  Python floats with the three special values that \<^verbatim>\<open>math.isnan\<close> and
  \<^verbatim>\<open>math.isinf\<close> test for. Finite values are idealised as reals (no rounding, no
  overflow).
\<close>

datatype pyfloat = Fin real | PInf | NInf | NaN

fun isnan :: "pyfloat \<Rightarrow> bool" where
  "isnan NaN = True"
| "isnan _ = False"

fun isinf :: "pyfloat \<Rightarrow> bool" where
  "isinf PInf = True"
| "isinf NInf = True"
| "isinf _ = False"

fun fneg :: "pyfloat \<Rightarrow> pyfloat" where
  "fneg (Fin a) = Fin (- a)"
| "fneg PInf = NInf"
| "fneg NInf = PInf"
| "fneg NaN = NaN"

fun fadd :: "pyfloat \<Rightarrow> pyfloat \<Rightarrow> pyfloat" where
  "fadd NaN _ = NaN"
| "fadd _ NaN = NaN"
| "fadd (Fin a) (Fin b) = Fin (a + b)"
| "fadd (Fin a) PInf = PInf"
| "fadd (Fin a) NInf = NInf"
| "fadd PInf (Fin b) = PInf"
| "fadd NInf (Fin b) = NInf"
| "fadd PInf PInf = PInf"
| "fadd NInf NInf = NInf"
| "fadd PInf NInf = NaN"
| "fadd NInf PInf = NaN"

definition fsub :: "pyfloat \<Rightarrow> pyfloat \<Rightarrow> pyfloat" where
  "fsub a b = fadd a (fneg b)"

text \<open>\<^verbatim>\<open>a < b\<close> on floats: false as soon as one side is NaN.\<close>

fun flt :: "pyfloat \<Rightarrow> pyfloat \<Rightarrow> bool" where
  "flt NaN _ = False"
| "flt _ NaN = False"
| "flt (Fin a) (Fin b) = (a < b)"
| "flt (Fin a) PInf = True"
| "flt (Fin a) NInf = False"
| "flt PInf _ = False"
| "flt NInf NInf = False"
| "flt NInf _ = True"

subsection \<open>The early stopping monitor\<close>

text \<open>
  The attributes of \<^verbatim>\<open>Trainer\<close> that \<^verbatim>\<open>stop_early\<close> reads and writes.
  \<^verbatim>\<open>stop_count\<close> is created by the first observation; no call reads it before.
\<close>

record trainer =
  early_stopping :: int
  tolerance :: pyfloat
  prev_acc :: "pyfloat option"
  stop_count :: int

text \<open>
  \<^verbatim>\<open>
  def stop_early(self, acc):
      if self.early_stopping <= 0:
          return False
      if self.prev_acc is None:
          self.prev_acc = acc
          self.stop_count = 0
          return False
      if acc-self.prev_acc < self.tolerance:
          self.stop_count += 1
          if self.stop_count >= self.early_stopping:
              return True
      self.stop_count = 0
      self.prev_acc = acc
      return False
  \<close>
  The two assignments after the inner \<^verbatim>\<open>if\<close> are reached by every call that does not
  return \<^verbatim>\<open>True\<close>, the ones that have just incremented the counter included.
\<close>

definition stop_early :: "trainer \<Rightarrow> pyfloat \<Rightarrow> bool \<times> trainer" where
  "stop_early self acc =
     (if early_stopping self \<le> 0 then (False, self)
      else case prev_acc self of
        None \<Rightarrow> (False, self\<lparr>prev_acc := Some acc, stop_count := 0\<rparr>)
      | Some prev \<Rightarrow>
          (if flt (fsub acc prev) (tolerance self)
           then (let self1 = self\<lparr>stop_count := stop_count self + 1\<rparr>
                 in if stop_count self1 \<ge> early_stopping self1 then (True, self1)
                    else (False, self1\<lparr>stop_count := 0, prev_acc := Some acc\<rparr>))
           else (False, self\<lparr>stop_count := 0, prev_acc := Some acc\<rparr>)))"

text \<open>The monitor fed one metric per epoch: the answers in order, and the final state.\<close>

fun observe_all :: "trainer \<Rightarrow> pyfloat list \<Rightarrow> bool list \<times> trainer" where
  "observe_all self [] = ([], self)"
| "observe_all self (acc # accs) =
     (case stop_early self acc of
        (stop, self') \<Rightarrow> (case observe_all self' accs of
                            (stops, self'') \<Rightarrow> (stop # stops, self'')))"


subsection \<open>Configurations\<close>

text \<open>
  A configuration (\<^verbatim>\<open>hyps\<close>) is a Python dict from option names to values. The
  values that the orchestration inspects are ints, bools, strings, \<^verbatim>\<open>None\<close>, floats
  and lists.
\<close>

datatype pyval = PNone | PBool bool | PInt int | PFloat real | PStr string | PList "pyval list"

text \<open>The exceptions that the modelled code can raise.\<close>

datatype error = KeyError pyval | TypeError | ValueError | IndexError | NameError string
  | ZeroDivisionError

type_synonym hyps = "string \<rightharpoonup> pyval"

text \<open>\<^verbatim>\<open>utils.try_key(dict_, key, default)\<close>: the value under the key, or the default.\<close>

definition try_key :: "hyps \<Rightarrow> string \<Rightarrow> pyval \<Rightarrow> pyval" where
  "try_key dict key dflt = (case dict key of Some v \<Rightarrow> v | None \<Rightarrow> dflt)"

text \<open>Truth value of a Python object, as taken by \<^verbatim>\<open>if\<close>.\<close>

fun truthy :: "pyval \<Rightarrow> bool" where
  "truthy PNone = False"
| "truthy (PBool b) = b"
| "truthy (PInt i) = (i \<noteq> 0)"
| "truthy (PFloat r) = (r \<noteq> 0)"
| "truthy (PStr s) = (s \<noteq> [])"
| "truthy (PList l) = (l \<noteq> [])"

text \<open>
  \<^verbatim>\<open>str(v)\<close>. Ints are written in decimal; the rendering of floats and lists is left
  to the parameter \<open>ext\<close>.
\<close>

fun digits10 :: "nat \<Rightarrow> string" where
  "digits10 n = (if n < 10 then [''0123456789'' ! n]
                 else digits10 (n div 10) @ [''0123456789'' ! (n mod 10)])"

declare digits10.simps [simp del]

definition str_int :: "int \<Rightarrow> string" where
  "str_int i = (if i < 0 then CHR ''-'' # digits10 (nat (- i)) else digits10 (nat i))"

fun str_py :: "(pyval \<Rightarrow> string) \<Rightarrow> pyval \<Rightarrow> string" where
  "str_py ext PNone = ''None''"
| "str_py ext (PBool b) = (if b then ''True'' else ''False'')"
| "str_py ext (PInt i) = str_int i"
| "str_py ext (PStr s) = s"
| "str_py ext v = ext v"

subsection \<open>The sweep engine: \<^verbatim>\<open>fill_hyper_q\<close>\<close>

text \<open>
  The base call of \<^verbatim>\<open>fill_hyper_q\<close> first gives every option it needs a value:
  a run of statements \<^verbatim>\<open>hyps[k] = utils.try_key(hyps, k, d)\<close>, interrupted once by
  \<^verbatim>\<open>
  if hyps['prune_intvl'] is None:
      hyps['prune_intvl'] = hyps['n_epochs']
  \<close>
  which raises \<^verbatim>\<open>KeyError\<close> when \<^verbatim>\<open>n_epochs\<close> is absent.
\<close>

definition set_default :: "hyps \<Rightarrow> string \<times> pyval \<Rightarrow> hyps" where
  "set_default h kd = h(fst kd \<mapsto> try_key h (fst kd) (snd kd))"

definition defaults_first :: "(string \<times> pyval) list" where
  "defaults_first =
     [(''n_repeats'', PInt 1), (''prune'', PBool False), (''altn_layers'', PBool False),
      (''abssum'', PBool False), (''prune_layers'', PList []), (''prune_intvl'', PNone),
      (''prune_tolerance'', PFloat 0.01)]"

definition defaults_rest :: "(string \<times> pyval) list" where
  "defaults_rest =
     [(''alpha_steps'', PInt 5), (''intg_bsize'', PInt 500),
      (''scheduler'', PStr ''ReduceLROnPlateau''), (''scheduler_thresh'', PFloat 0.01),
      (''scheduler_patience'', PInt 10), (''scheduler_scale'', PFloat 0.5),
      (''cross_val'', PBool False), (''cross_val_idx'', PInt 0), (''n_cv_folds'', PInt 10)]"

definition ensure_hyps :: "hyps \<Rightarrow> error + hyps" where
  "ensure_hyps hyps =
     (let h = foldl set_default hyps defaults_first
      in if h ''prune_intvl'' = Some PNone
         then (case h ''n_epochs'' of
                 None \<Rightarrow> Inl (KeyError (PStr ''n_epochs''))
               | Some n \<Rightarrow> Inr (foldl set_default (h(''prune_intvl'' \<mapsto> n)) defaults_rest))
         else Inr (foldl set_default h defaults_rest))"

text \<open>
  The inner loop of the base call, over the swept keys in the order of \<^verbatim>\<open>keys\<close>:
  \<^verbatim>\<open>
  for k in keys:
      v = str(hyps[k])
      if k == "startpt" and hyps[k] is not None:
          cp = tdrio.load_checkpoint(v)
          v = str(cp['exp_name'])+str(cp['exp_num'])
      hyps['search_keys'] += "_" + str(k) + v
  \<close>
  The name that a start checkpoint contributes is the parameter \<open>cp\<close>.
\<close>

fun add_search_keys :: "(pyval \<Rightarrow> string) \<Rightarrow> (string \<Rightarrow> string) \<Rightarrow> string list \<Rightarrow> hyps
                          \<Rightarrow> error + hyps" where
  "add_search_keys ext cp [] h = Inr h"
| "add_search_keys ext cp (k # ks) h =
     (case h k of
        None \<Rightarrow> Inl (KeyError (PStr k))
      | Some x \<Rightarrow>
         (let v = str_py ext x;
              v = (if k = ''startpt'' \<and> x \<noteq> PNone then cp v else v)
          in case h ''search_keys'' of
               Some (PStr s) \<Rightarrow>
                 add_search_keys ext cp ks (h(''search_keys'' \<mapsto> PStr (s @ ''_'' @ k @ v)))
             | _ \<Rightarrow> Inl TypeError))"

text \<open>The number of iterations of \<^verbatim>\<open>for i in range(hyps['n_repeats'])\<close>.\<close>

fun range_len :: "pyval \<Rightarrow> error + nat" where
  "range_len (PInt n) = Inr (nat n)"
| "range_len (PBool b) = Inr (if b then 1 else 0)"
| "range_len _ = Inl TypeError"

text \<open>
  \<^verbatim>\<open>
  for i in range(hyps['n_repeats']):
      hyps['search_keys'] = ""
      for k in keys: ...
      hyper_q.put({k:v for k,v in hyps.items()})
  \<close>
  Each iteration puts a copy of the whole dict on the queue; nothing else is written
  between two iterations.
\<close>

fun repeat_put :: "(pyval \<Rightarrow> string) \<Rightarrow> (string \<Rightarrow> string) \<Rightarrow> nat \<Rightarrow> string list \<Rightarrow> hyps
                     \<Rightarrow> hyps list \<Rightarrow> error + hyps \<times> hyps list" where
  "repeat_put ext cp 0 keys h q = Inr (h, q)"
| "repeat_put ext cp (Suc n) keys h q =
     (case add_search_keys ext cp keys (h(''search_keys'' \<mapsto> PStr [])) of
        Inl e \<Rightarrow> Inl e
      | Inr h' \<Rightarrow> repeat_put ext cp n keys h' (q @ [h']))"

definition base_call :: "(pyval \<Rightarrow> string) \<Rightarrow> (string \<Rightarrow> string) \<Rightarrow> string list \<Rightarrow> hyps
                     \<Rightarrow> hyps list \<Rightarrow> error + hyps \<times> hyps list" where
  "base_call ext cp keys hyps q =
     (case ensure_hyps hyps of
        Inl e \<Rightarrow> Inl e
      | Inr h \<Rightarrow> (case range_len (try_key h ''n_repeats'' PNone) of
                    Inl e \<Rightarrow> Inl e
                  | Inr n \<Rightarrow> repeat_put ext cp n keys h q))"

text \<open>
  \<^verbatim>\<open>
  def fill_hyper_q(hyps, hyp_ranges, keys, hyper_q, idx=0):
      if idx >= len(keys):
          ... base call ...
      else:
          key = keys[idx]
          for param in hyp_ranges[key]:
              hyps[key] = param
              hyper_q = fill_hyper_q(hyps, hyp_ranges, keys, hyper_q, idx+1)
      return hyper_q
  \<close>
  The dict \<^verbatim>\<open>hyps\<close> is one object, mutated by every call: the model passes it on and
  returns it with the queue. \<^verbatim>\<open>hyp_ranges\<close> is a dict in insertion order, an
  association list here.
\<close>

function fill_hyper_q :: "(pyval \<Rightarrow> string) \<Rightarrow> (string \<Rightarrow> string) \<Rightarrow> hyps
      \<Rightarrow> (string \<times> pyval list) list \<Rightarrow> string list \<Rightarrow> hyps list \<Rightarrow> nat
      \<Rightarrow> error + hyps \<times> hyps list" where
  "fill_hyper_q ext cp hyps hyp_ranges keys hyper_q idx =
     (if idx \<ge> length keys then base_call ext cp keys hyps hyper_q
      else (case map_of hyp_ranges (keys ! idx) of
              None \<Rightarrow> Inl (KeyError (PStr (keys ! idx)))
            | Some params \<Rightarrow>
                foldl (\<lambda>acc param.
                         case acc of
                           Inl e \<Rightarrow> Inl e
                         | Inr (h, q) \<Rightarrow>
                             fill_hyper_q ext cp (h(keys ! idx \<mapsto> param)) hyp_ranges keys q (Suc idx))
                      (Inr (hyps, hyper_q)) params))"
  by pat_completeness auto
termination
  by (relation "measure (\<lambda>(ext, cp, hyps, hyp_ranges, keys, hyper_q, idx). length keys - idx)") auto

declare fill_hyper_q.simps [simp del]

text \<open>
  The call made by \<^verbatim>\<open>hyper_search\<close>:
  \<^verbatim>\<open>fill_hyper_q(hyps, hyp_ranges, list(hyp_ranges.keys()), Queue(), idx=0)\<close>.
\<close>

definition hyper_q_of :: "(pyval \<Rightarrow> string) \<Rightarrow> (string \<Rightarrow> string) \<Rightarrow> hyps
      \<Rightarrow> (string \<times> pyval list) list \<Rightarrow> error + hyps \<times> hyps list" where
  "hyper_q_of ext cp hyps hyp_ranges = fill_hyper_q ext cp hyps hyp_ranges (map fst hyp_ranges) [] 0"

text \<open>Reading a result: the queue, and one option of every queued configuration.\<close>

definition queue_of :: "error + hyps \<times> hyps list \<Rightarrow> hyps list" where
  "queue_of r = (case r of Inl e \<Rightarrow> [] | Inr (h, q) \<Rightarrow> q)"

definition queue_column :: "string \<Rightarrow> hyps list \<Rightarrow> pyval option list" where
  "queue_column k q = map (\<lambda>c. c k) q"

text \<open>
  The search key as the specification words it: "_" + key + value for every swept key,
  concatenated in the order of the keys.
\<close>

definition key_value :: "(pyval \<Rightarrow> string) \<Rightarrow> (string \<Rightarrow> string) \<Rightarrow> hyps \<Rightarrow> string \<Rightarrow> string" where
  "key_value ext cp h k =
     (let x = the (h k); v = str_py ext x
      in if k = ''startpt'' \<and> x \<noteq> PNone then cp v else v)"

definition search_key_string :: "(pyval \<Rightarrow> string) \<Rightarrow> (string \<Rightarrow> string) \<Rightarrow> hyps \<Rightarrow> string list \<Rightarrow> string" where
  "search_key_string ext cp h keys = concat (map (\<lambda>k. ''_'' @ k @ key_value ext cp h k) keys)"

text \<open>
  What the base call needs in order not to raise: \<^verbatim>\<open>n_epochs\<close> is present, or
  \<^verbatim>\<open>prune_intvl\<close> is present and not \<^verbatim>\<open>None\<close>.
\<close>

definition ensure_ok :: "hyps \<Rightarrow> bool" where
  "ensure_ok h \<longleftrightarrow> h ''n_epochs'' \<noteq> None \<or> (\<exists>v. h ''prune_intvl'' = Some v \<and> v \<noteq> PNone)"

text \<open>A configuration that the base call queues exactly once.\<close>

definition sweep_ready :: "hyps \<Rightarrow> bool" where
  "sweep_ready h \<longleftrightarrow> ensure_ok h \<and> try_key h ''n_repeats'' (PInt 1) = PInt 1"

text \<open>Example inputs: the ranges of the two-key sweep, and two base configurations.\<close>

definition ab_ranges :: "(string \<times> pyval list) list" where
  "ab_ranges = [(''a'', [PInt 1, PInt 2]), (''b'', [PInt 3, PInt 4])]"

definition base_example :: hyps where
  "base_example = [''n_epochs'' \<mapsto> PInt 2, ''exp_name'' \<mapsto> PStr ''sweep'']"

definition seeded_example :: hyps where
  "seeded_example = [''n_epochs'' \<mapsto> PInt 2, ''n_repeats'' \<mapsto> PInt 2, ''seed'' \<mapsto> PInt 7]"

definition seeded_point :: hyps where
  "seeded_point = seeded_example(''a'' \<mapsto> PInt 1)"

definition repr_example :: "pyval \<Rightarrow> string" where
  "repr_example v = ''?''"

definition ckpt_example :: "string \<Rightarrow> string" where
  "ckpt_example v = v"

subsection \<open>The optimisation objects: \<^verbatim>\<open>get_optim_objs\<close>\<close>

text \<open>
  \<^verbatim>\<open>
  def get_optim_objs(hyps, model, centers=None):
      if 'lossfxn' not in hyps:
          hyps['lossfxn'] = "PoissonNLLLoss"
      if hyps['lossfxn'] == "PoissonNLLLoss" and 'log_poisson' in hyps:
          log_p = hyps['log_poisson']
          loss_fn = globals()[hyps['lossfxn']](log_input=log_p)
      else:
          loss_fn = globals()[hyps['lossfxn']]()
      optimizer = torch.optim.Adam(model.parameters(), lr=hyps['lr'],
                                             weight_decay=hyps['l2'])
      if hyps['scheduler'] == 'ReduceLROnPlateau':
          scheduler = globals()[hyps['scheduler']](optimizer, 'min',
                                    factor=hyps['scheduler_scale'],
                                    patience=hyps['scheduler_patience'],
                                    threshold=hyps['scheduler_thresh'],
                                    verbose=True)
      elif hyps['scheduler'] == 'MultiStepLR':
          milestones = utils.try_key(hyps,'scheduler_milestones',[10,20,30])
          scheduler = globals()[hyps['scheduler']](optimizer, milestones,
                                          gamma=0.1)
      else:
          hyps['scheduler'] = "NullScheduler"
          scheduler = NullScheduler()
      return optimizer, scheduler, loss_fn
  \<close>
  The objects that the function builds come from code outside this module: the loss
  is whatever the module namespace binds to the configured name, called with or
  without \<^verbatim>\<open>log_input\<close>; the optimiser is \<^verbatim>\<open>torch.optim.Adam\<close>; the schedulers are
  looked up by name as well. Each of these calls can raise. The embedding takes their
  behaviour as an input: the namespace maps a bound name to what a call of the object
  bound there does with its positional and keyword arguments.
\<close>

datatype obj = Value pyval | Instance string "obj list" "(string \<times> obj) list"

type_synonym callee = "obj list \<Rightarrow> (string \<times> obj) list \<Rightarrow> error + obj"

record module_env =
  globals :: "string \<rightharpoonup> callee"
  adam :: callee

record optim_objs =
  optimizer :: obj
  scheduler :: obj
  loss_fn :: obj

text \<open>
  \<^verbatim>\<open>globals()[v]\<close>: a name that is not bound raises \<^verbatim>\<open>KeyError\<close>, a list is no
  key at all.
\<close>

fun lookup_global :: "(string \<rightharpoonup> callee) \<Rightarrow> pyval \<Rightarrow> error + callee" where
  "lookup_global G (PStr name) =
     (case G name of None \<Rightarrow> Inl (KeyError (PStr name)) | Some f \<Rightarrow> Inr f)"
| "lookup_global G (PList l) = Inl TypeError"
| "lookup_global G v = Inl (KeyError v)"

definition get_item :: "hyps \<Rightarrow> string \<Rightarrow> error + pyval" where
  "get_item h k = (case h k of None \<Rightarrow> Inl (KeyError (PStr k)) | Some v \<Rightarrow> Inr v)"

text \<open>
  The keyword arguments of the loss constructor: \<^verbatim>\<open>log_input\<close> when the loss is named
  \<^verbatim>\<open>PoissonNLLLoss\<close> and the configuration has \<^verbatim>\<open>log_poisson\<close>, none otherwise.
\<close>

definition loss_kwargs :: "hyps \<Rightarrow> (string \<times> obj) list" where
  "loss_kwargs hyps =
     (case hyps ''log_poisson'' of
        None \<Rightarrow> []
      | Some log_p \<Rightarrow>
          if hyps ''lossfxn'' = Some (PStr ''PoissonNLLLoss'')
          then [(''log_input'', Value log_p)] else [])"

text \<open>\<^verbatim>\<open>torch.optim.Adam(model.parameters(), lr=lr, weight_decay=l2)\<close>.\<close>

definition build_optimizer :: "module_env \<Rightarrow> obj \<Rightarrow> pyval \<Rightarrow> pyval \<Rightarrow> error + obj" where
  "build_optimizer N model lr l2 =
     adam N [Instance ''parameters'' [model] []]
            [(''lr'', Value lr), (''weight_decay'', Value l2)]"

text \<open>
  The scheduler chain. In the first two branches the constructor is looked up in the
  namespace before its arguments are read; the last branch overwrites the configured
  name and calls the global name \<^verbatim>\<open>NullScheduler\<close>. The \<^verbatim>\<open>print\<close> of the milestones
  is left out.
\<close>

definition make_scheduler ::
  "(string \<rightharpoonup> callee) \<Rightarrow> hyps \<Rightarrow> obj \<Rightarrow> error + hyps \<times> obj" where
  "make_scheduler G hyps opt =
     (case get_item hyps ''scheduler'' of
        Inl e \<Rightarrow> Inl e
      | Inr s \<Rightarrow>
          if s = PStr ''ReduceLROnPlateau''
          then (case lookup_global G s of
                  Inl e \<Rightarrow> Inl e
                | Inr ctor \<Rightarrow>
                   (case get_item hyps ''scheduler_scale'' of
                      Inl e \<Rightarrow> Inl e
                    | Inr factor \<Rightarrow>
                       (case get_item hyps ''scheduler_patience'' of
                          Inl e \<Rightarrow> Inl e
                        | Inr patience \<Rightarrow>
                           (case get_item hyps ''scheduler_thresh'' of
                              Inl e \<Rightarrow> Inl e
                            | Inr threshold \<Rightarrow>
                               (case ctor [opt, Value (PStr ''min'')]
                                          [(''factor'', Value factor),
                                           (''patience'', Value patience),
                                           (''threshold'', Value threshold),
                                           (''verbose'', Value (PBool True))] of
                                  Inl e \<Rightarrow> Inl e
                                | Inr sched \<Rightarrow> Inr (hyps, sched))))))
          else if s = PStr ''MultiStepLR''
          then (let milestones = try_key hyps ''scheduler_milestones''
                                   (PList [PInt 10, PInt 20, PInt 30])
                in case lookup_global G s of
                     Inl e \<Rightarrow> Inl e
                   | Inr ctor \<Rightarrow>
                      (case ctor [opt, Value milestones] [(''gamma'', Value (PFloat 0.1))] of
                         Inl e \<Rightarrow> Inl e
                       | Inr sched \<Rightarrow> Inr (hyps, sched)))
          else (case G ''NullScheduler'' of
                  None \<Rightarrow> Inl (NameError ''NullScheduler'')
                | Some ctor \<Rightarrow>
                   (case ctor [] [] of
                      Inl e \<Rightarrow> Inl e
                    | Inr sched \<Rightarrow>
                        Inr (hyps(''scheduler'' \<mapsto> PStr ''NullScheduler''), sched))))"

definition get_optim_objs :: "module_env \<Rightarrow> obj \<Rightarrow> hyps \<Rightarrow> error + hyps \<times> optim_objs" where
  "get_optim_objs N model hyps0 =
     (let hyps = (if hyps0 ''lossfxn'' = None
                  then hyps0(''lossfxn'' \<mapsto> PStr ''PoissonNLLLoss'') else hyps0)
      in case lookup_global (globals N) (try_key hyps ''lossfxn'' PNone) of
           Inl e \<Rightarrow> Inl e
         | Inr ctor \<Rightarrow>
            (case ctor [] (loss_kwargs hyps) of
               Inl e \<Rightarrow> Inl e
             | Inr loss \<Rightarrow>
                (case get_item hyps ''lr'' of
                   Inl e \<Rightarrow> Inl e
                 | Inr lr \<Rightarrow>
                    (case get_item hyps ''l2'' of
                       Inl e \<Rightarrow> Inl e
                     | Inr l2 \<Rightarrow>
                        (case build_optimizer N model lr l2 of
                           Inl e \<Rightarrow> Inl e
                         | Inr opt \<Rightarrow>
                            (case make_scheduler (globals N) hyps opt of
                               Inl e \<Rightarrow> Inl e
                             | Inr (hyps', sched) \<Rightarrow>
                                 Inr (hyps', \<lparr>optimizer = opt, scheduler = sched,
                                              loss_fn = loss\<rparr>)))))))"

text \<open>
  Example inputs. A class whose constructor takes only optional keyword parameters,
  called without positional arguments, returns an instance, and raises \<^verbatim>\<open>TypeError\<close>
  at a keyword it does not have; a bound object that is no callable, as a module,
  raises \<^verbatim>\<open>TypeError\<close> at every call.
\<close>

definition keyword_class :: "string \<Rightarrow> string list \<Rightarrow> callee" where
  "keyword_class name keywords args kwargs =
     (if args = [] \<and> set (map fst kwargs) \<subseteq> set keywords
      then Inr (Instance name args kwargs) else Inl TypeError)"

definition not_callable :: callee where
  "not_callable args kwargs = Inl TypeError"

text \<open>
  An optimiser constructor that, as \<^verbatim>\<open>torch.optim.Adam\<close> does, refuses a learning
  rate or a weight decay that is no number or is negative.
\<close>

fun as_number :: "obj option \<Rightarrow> real option" where
  "as_number (Some (Value (PInt i))) = Some (of_int i)"
| "as_number (Some (Value (PFloat x))) = Some x"
| "as_number (Some (Value (PBool b))) = Some (if b then 1 else 0)"
| "as_number v = None"

definition checked_adam :: callee where
  "checked_adam args kwargs =
     (case as_number (map_of kwargs ''lr'') of
        None \<Rightarrow> Inl TypeError
      | Some lr \<Rightarrow>
          if lr < 0 then Inl ValueError
          else (case as_number (map_of kwargs ''weight_decay'') of
                  None \<Rightarrow> Inl TypeError
                | Some l2 \<Rightarrow>
                    if l2 < 0 then Inl ValueError
                    else Inr (Instance ''Adam'' args kwargs)))"

text \<open>
  An example namespace: the two loss classes and the no-op scheduler that the import
  lines of \<^verbatim>\<open>training.py\<close> bind by name, and the module \<^verbatim>\<open>os\<close>. The namespace of the
  module binds more names than these: its other imports and definitions, and whatever
  the star import of \<^verbatim>\<open>torchdeepretina.models\<close> brings. The example stands for a
  namespace in which \<^verbatim>\<open>HuberLoss\<close> is not bound.
\<close>

definition example_globals :: "string \<rightharpoonup> callee" where
  "example_globals =
     [''PoissonNLLLoss'' \<mapsto> keyword_class ''PoissonNLLLoss''
          [''log_input'', ''full'', ''size_average'', ''eps'', ''reduce'', ''reduction''],
      ''MSELoss'' \<mapsto> keyword_class ''MSELoss'' [''size_average'', ''reduce'', ''reduction''],
      ''NullScheduler'' \<mapsto> keyword_class ''NullScheduler'' [],
      ''os'' \<mapsto> not_callable]"

definition example_env :: module_env where
  "example_env = \<lparr>globals = example_globals, adam = checked_adam\<rparr>"

definition example_model :: obj where
  "example_model = Instance ''model'' [] []"

text \<open>
  Three configurations: one names a scheduler the code does not know, one a loss that
  is not bound, one a loss name that is bound to a module.
\<close>

definition cosine_example :: hyps where
  "cosine_example = [''lossfxn'' \<mapsto> PStr ''MSELoss'', ''lr'' \<mapsto> PFloat 0.001,
                     ''l2'' \<mapsto> PFloat 0.01, ''scheduler'' \<mapsto> PStr ''CosineAnnealingLR'']"

definition huber_example :: hyps where
  "huber_example = [''lossfxn'' \<mapsto> PStr ''HuberLoss'', ''lr'' \<mapsto> PFloat 0.001,
                    ''l2'' \<mapsto> PFloat 0.01, ''scheduler'' \<mapsto> PStr ''MultiStepLR'']"

definition os_example :: hyps where
  "os_example = [''lossfxn'' \<mapsto> PStr ''os'', ''lr'' \<mapsto> PFloat 0.001,
                 ''l2'' \<mapsto> PFloat 0.01, ''scheduler'' \<mapsto> PStr ''MultiStepLR'']"

definition cosine_objs :: optim_objs where
  "cosine_objs =
     \<lparr>optimizer = Instance ''Adam'' [Instance ''parameters'' [example_model] []]
                    [(''lr'', Value (PFloat 0.001)), (''weight_decay'', Value (PFloat 0.01))],
      scheduler = Instance ''NullScheduler'' [] [],
      loss_fn = Instance ''MSELoss'' [] []\<rparr>"

subsection \<open>The run entry \<^verbatim>\<open>Trainer.train\<close> and the sweep loop of \<^verbatim>\<open>hyper_search\<close>\<close>

text \<open>
  A training method takes the configuration and the trainer, mutates both, and either
  returns a result or raises.
\<close>

type_synonym 'r train_method = "hyps \<Rightarrow> trainer \<Rightarrow> (error + 'r) \<times> hyps \<times> trainer"

text \<open>What the run entry and the sweep loop print, and what is appended to the results file.\<close>

datatype out_line = SearchesLeft nat | CaughtIndexError | Skipped pyval pyval

record 'r sweep_io =
  stdout :: "out_line list"
  results_file :: "'r list"

text \<open>
  \<^verbatim>\<open>
  def train(self,hyps,verbose=True):
      if utils.try_key(hyps, "retinotopic", False):
          train_method = getattr(self, "retinotopic_loop")
      else:
          train_method = self.train_loop
      try:
          return train_method(hyps,verbose)
      except IndexError as e:
          print("Caught Index Error", e)
          return None
  \<close>
  Only \<^verbatim>\<open>IndexError\<close> is caught; every other exception leaves \<^verbatim>\<open>train\<close>.
\<close>

definition train :: "'r train_method \<Rightarrow> 'r train_method \<Rightarrow> hyps \<Rightarrow> trainer \<Rightarrow> out_line list
                       \<Rightarrow> (error + 'r option) \<times> hyps \<times> trainer \<times> out_line list" where
  "train train_loop retinotopic_loop hyps self out =
     (let train_method = (if truthy (try_key hyps ''retinotopic'' (PBool False))
                          then retinotopic_loop else train_loop)
      in case train_method hyps self of
           (Inr r, hyps', self') \<Rightarrow> (Inr (Some r), hyps', self', out)
         | (Inl e, hyps', self') \<Rightarrow>
             (if e = IndexError then (Inr None, hyps', self', out @ [CaughtIndexError])
              else (Inl e, hyps', self', out)))"

text \<open>
  \<^verbatim>\<open>
  while not hyper_q.empty():
      print("Searches left:", hyper_q.qsize(), ...)
      hyps = hyper_q.get()
      results = trainer.train(hyps, verbose=True)
      if results is not None:
          with open(results_file,'a') as f:
              results = " -- ".join(...)
              f.write("\n"+results+"\n")
      else:
          print("Skipped {} cells {}".format(hyps['dataset'], hyps['cells']))
  \<close>
  One trainer serves all jobs. An exception that leaves \<^verbatim>\<open>train\<close> ends the sweep.
\<close>

fun run_queue :: "'r train_method \<Rightarrow> 'r train_method \<Rightarrow> hyps list \<Rightarrow> trainer \<Rightarrow> 'r sweep_io
                    \<Rightarrow> error + 'r sweep_io" where
  "run_queue tloop rloop [] self io = Inr io"
| "run_queue tloop rloop (hyps # q) self io =
     (case train tloop rloop hyps self (stdout io @ [SearchesLeft (Suc (length q))]) of
        (Inl e, hyps', self', out) \<Rightarrow> Inl e
      | (Inr (Some r), hyps', self', out) \<Rightarrow>
          run_queue tloop rloop q self' (io\<lparr>stdout := out, results_file := results_file io @ [r]\<rparr>)
      | (Inr None, hyps', self', out) \<Rightarrow>
          (case get_item hyps' ''dataset'' of
             Inl e \<Rightarrow> Inl e
           | Inr d \<Rightarrow>
              (case get_item hyps' ''cells'' of
                 Inl e \<Rightarrow> Inl e
               | Inr c \<Rightarrow> run_queue tloop rloop q self' (io\<lparr>stdout := out @ [Skipped d c]\<rparr>))))"

subsection \<open>The end of \<^verbatim>\<open>Trainer.retinotopic_loop\<close>\<close>

text \<open>
  The values that the epoch loop leaves behind for the final save.
\<close>

record metrics =
  m_avg_loss :: pyfloat
  m_val_acc :: pyfloat
  m_val_loss :: pyfloat
  m_avg_pearson :: pyfloat

record run_result =
  r_save_folder :: pyval
  r_Loss :: pyfloat
  r_ValAcc :: pyfloat
  r_ValLoss :: pyfloat
  r_TestPearson :: pyfloat

text \<open>
  \<^verbatim>\<open>
  # Final save
  results = {"save_folder":hyps['save_folder'], "Loss":avg_loss, "ValAcc":val_acc,
             "ValLoss":val_loss, "TestPearson":avg_pearson}
  with open(hyps['save_folder'] + "/hyperparams.txt",'a') as f:
      s = " ".join([str(k)+":"+str(results[k]) for k in sorted(results.keys())])
      if hyps['prune']:
          s += "\nZeroed Channels:\n"
          keys = sorted(list(zero_dict.keys()))
          ...
      s = "\n" + s + '\n'
      f.write(s)
  return results
  \<close>
  Everything before the final save (set-up and the epoch loop) is the parameter
  \<open>epochs\<close>: it raises, or it ends with the metrics of the last epoch.
  \<^verbatim>\<open>retinotopic_loop\<close> never assigns \<^verbatim>\<open>zero_dict\<close> and the module does not define it,
  so reading it raises \<^verbatim>\<open>NameError\<close>.
\<close>

definition retinotopic_loop :: "(hyps \<Rightarrow> trainer \<Rightarrow> (error + metrics) \<times> hyps \<times> trainer)
                                  \<Rightarrow> run_result train_method" where
  "retinotopic_loop epochs hyps self =
     (case epochs hyps self of
        (Inl e, hyps', self') \<Rightarrow> (Inl e, hyps', self')
      | (Inr m, hyps', self') \<Rightarrow>
          (case get_item hyps' ''save_folder'' of
             Inl e \<Rightarrow> (Inl e, hyps', self')
           | Inr sf \<Rightarrow>
              (case get_item hyps' ''prune'' of
                 Inl e \<Rightarrow> (Inl e, hyps', self')
               | Inr p \<Rightarrow>
                  if truthy p then (Inl (NameError ''zero_dict''), hyps', self')
                  else (Inr \<lparr>r_save_folder = sf, r_Loss = m_avg_loss m, r_ValAcc = m_val_acc m,
                              r_ValLoss = m_val_loss m, r_TestPearson = m_avg_pearson m\<rparr>,
                        hyps', self'))))"

text \<open>Example inputs: a job whose training raises \<^verbatim>\<open>IndexError\<close>, and one that succeeds.\<close>

definition job_example :: hyps where
  "job_example = [''dataset'' \<mapsto> PStr ''15-10-07'', ''cells'' \<mapsto> PStr ''all'',
                  ''save_folder'' \<mapsto> PStr ''run_0'', ''prune'' \<mapsto> PBool False]"

definition retino_prune_example :: hyps where
  "retino_prune_example = [''dataset'' \<mapsto> PStr ''15-10-07'', ''cells'' \<mapsto> PStr ''all'',
                  ''save_folder'' \<mapsto> PStr ''run_0'', ''prune'' \<mapsto> PBool True,
                  ''retinotopic'' \<mapsto> PBool True]"

definition trainer_example :: trainer where
  "trainer_example = \<lparr>early_stopping = 10, tolerance = Fin 0.01, prev_acc = None, stop_count = 0\<rparr>"

definition faulty_loop :: "run_result train_method" where
  "faulty_loop hyps self = (Inl IndexError, hyps, self)"

definition finished_epochs :: "hyps \<Rightarrow> trainer \<Rightarrow> (error + metrics) \<times> hyps \<times> trainer" where
  "finished_epochs hyps self =
     (Inr \<lparr>m_avg_loss = Fin 1, m_val_acc = Fin 0.5, m_val_loss = Fin 1, m_avg_pearson = Fin 0\<rparr>,
      hyps, self)"

definition empty_io :: "run_result sweep_io" where
  "empty_io = \<lparr>stdout = [], results_file = []\<rparr>"

subsection \<open>The epoch loop of \<^verbatim>\<open>Trainer.train_loop\<close>\<close>

text \<open>
  The model covers one cross-validation fold, from the initialisations before the
  \<^verbatim>\<open>while\<close> loop to the loop's exit. The numeric work is done by collaborators; what
  they return in an epoch is given by an environment, one record per epoch.
\<close>

text \<open>\<^verbatim>\<open>x / n\<close> for a float and an int: division by zero raises.\<close>

definition fdiv :: "pyfloat \<Rightarrow> int \<Rightarrow> error + pyfloat" where
  "fdiv a n =
     (if n = 0 then Inl ZeroDivisionError
      else Inr (case a of
                  Fin r \<Rightarrow> Fin (r / of_int n)
                | PInf \<Rightarrow> (if 0 < n then PInf else NInf)
                | NInf \<Rightarrow> (if 0 < n then NInf else PInf)
                | NaN \<Rightarrow> NaN))"

text \<open>\<^verbatim>\<open>a != b\<close> on floats: true as soon as one side is NaN.\<close>

definition fne :: "pyfloat \<Rightarrow> pyfloat \<Rightarrow> bool" where
  "fne a b \<longleftrightarrow> isnan a \<or> isnan b \<or> a \<noteq> b"

text \<open>The zeroed-channel mapping: layer name to channel indices.\<close>

type_synonym zero_dict = "(string \<times> nat list) list"

text \<open>
  The dict passed to and returned by \<^verbatim>\<open>tdrprune.prune_channels\<close>, without its
  \<^verbatim>\<open>prev_state_dict\<close> entry (a tensor dict that the loop never reads).
\<close>

record prune_rec =
  pd_zero_dict :: zero_dict
  pd_cur_chan :: int
  pd_cur_layer :: "string option"
  pd_prev_acc :: pyfloat
  pd_prev_lr :: pyfloat
  pd_min_acc :: pyfloat

text \<open>
  The options that the loop reads from \<^verbatim>\<open>hyps\<close>, with the types the loop uses them
  at. \<^verbatim>\<open>null_scheduler\<close> says whether the scheduler is a \<^verbatim>\<open>NullScheduler\<close>;
  \<^verbatim>\<open>h_open_layers\<close> is \<^verbatim>\<open>hyps['open_layers']\<close> at the start of the loop.
\<close>

record loop_hyps =
  exp_name :: string
  h_n_epochs :: int
  prune_intvl :: int
  prune :: bool
  reset_sd :: bool
  reset_lr :: bool
  null_scheduler :: bool
  min_prune_acc :: pyfloat
  h_lr :: pyfloat
  prune_layers :: "string list"
  h_open_layers :: "string list"

text \<open>
  Parameter tensors live in a store. \<^verbatim>\<open>model.state_dict()\<close> returns a dict of the
  parameter tensors themselves (detached views on the same storage, not copies);
  \<^verbatim>\<open>optimizer.step()\<close> and \<^verbatim>\<open>tdrprune.zero_chans\<close> write the parameters in place;
  \<^verbatim>\<open>model.load_state_dict(sd)\<close> copies the values of \<^verbatim>\<open>sd\<close> into the parameters.
  One address stands for the whole set of parameter tensors of a model, and \<open>'w\<close> is
  the type of its contents.
\<close>

type_synonym addr = nat

definition state_dict :: "addr \<Rightarrow> addr" where
  "state_dict m = m"

definition load_state_dict :: "addr \<Rightarrow> addr \<Rightarrow> (addr \<Rightarrow> 'w) \<Rightarrow> (addr \<Rightarrow> 'w)" where
  "load_state_dict m sd H = H(m := H sd)"

text \<open>
  What \<^verbatim>\<open>tdrio.save_checkpoint\<close> receives at the end of an epoch (the entries that
  the loop computes), with the parameter values as they are written to disk.
\<close>

record 'w checkpoint =
  ck_epoch :: int
  ck_loss :: pyfloat
  ck_val_loss :: pyfloat
  ck_val_acc :: pyfloat
  ck_test_pearson :: pyfloat
  ck_zero_dict :: zero_dict
  ck_cur_lr :: pyfloat
  ck_weights :: 'w

text \<open>
  The calls to collaborators, in the order the loop makes them: a training batch
  (forward pass, backward pass, optimizer step, mask), the validation pass, the
  attribution-based pruning, the roll-back of the model, the checkpoint.
\<close>

datatype 'w event =
    TrainBatch int nat
  | Validation int
  | PruneChannels int
  | LoadStateDict int
  | Checkpoint "'w checkpoint"

text \<open>
  What the collaborators return in one epoch:
  \<^item> for every batch that \<^verbatim>\<open>data_distr.train_sample()\<close> yields, \<^verbatim>\<open>loss.item()\<close> and the
    effect of \<^verbatim>\<open>optimizer.step()\<close> on the parameters;
  \<^item> \<^verbatim>\<open>data_distr.n_loops\<close>;
  \<^item> the loss sum returned by \<^verbatim>\<open>validate_static\<close>, \<^verbatim>\<open>val_shape[0]//step_size\<close>, and
    the mean validation correlation;
  \<^item> the learning rate after \<^verbatim>\<open>scheduler.step(val_acc)\<close>, from the one before;
  \<^item> the mean test correlation (0 without test data);
  \<^item> the result of \<^verbatim>\<open>tdrprune.prune_channels\<close>: the new dict and the new
    \<^verbatim>\<open>hyps['open_layers']\<close>, from the dict passed in, \<^verbatim>\<open>val_acc\<close>, the learning rate
    and the open layers.
\<close>

record 'w epoch_env =
  e_batches :: "(pyfloat \<times> ('w \<Rightarrow> 'w)) list"
  e_n_loops :: int
  e_val_loss :: pyfloat
  e_val_n_loops :: int
  e_val_acc :: pyfloat
  e_sched_lr :: "pyfloat \<Rightarrow> pyfloat"
  e_test_pearson :: pyfloat
  e_prune_channels :: "prune_rec \<Rightarrow> pyfloat \<Rightarrow> pyfloat \<Rightarrow> string list \<Rightarrow> prune_rec \<times> string list"

text \<open>
  The local variables of the loop, the trainer, the learning rate of the optimizer,
  the parameter store and the calls made so far. \<^verbatim>\<open>cur_lr\<close> and \<^verbatim>\<open>prune_dict\<close> are
  unbound (\<open>None\<close>) until their first assignment.
\<close>

record 'w loop_state =
  epoch :: int
  stop_training :: bool
  n_epochs :: int
  hyps_prune :: bool
  zero_dict :: zero_dict
  cur_lr :: "pyfloat option"
  prune_dict :: "prune_rec option"
  avg_loss :: pyfloat
  val_loss :: pyfloat
  val_acc :: pyfloat
  avg_pearson :: pyfloat
  open_layers :: "string list"
  lr :: pyfloat
  model :: addr
  og_state_dict :: addr
  heap :: "addr \<Rightarrow> 'w"
  monitor :: trainer
  trace :: "'w event list"

text \<open>
  \<^verbatim>\<open>
  for i,(x,label) in enumerate(data_distr.train_sample()):
      optimizer.zero_grad()
      ...
      loss = error + activity_l1
      loss.backward()
      optimizer.step()
      tdrprune.zero_chans(model, zero_dict, zero_bias)
      epoch_loss += loss.item()
      if math.isnan(epoch_loss) or math.isinf(epoch_loss):
          break
      if hyps['exp_name']=="test" and i >= 5:
          break
  \<close>
  The parameter \<open>zc\<close> is the effect of \<^verbatim>\<open>tdrprune.zero_chans\<close> on the parameters.
  The batch loop writes the model's parameters and nothing else of the loop's state:
  it is run on the accumulated loss, the contents of the parameters and the calls made
  so far.
\<close>

fun train_batches :: "(zero_dict \<Rightarrow> 'w \<Rightarrow> 'w) \<Rightarrow> zero_dict \<Rightarrow> bool \<Rightarrow> int
                        \<Rightarrow> (pyfloat \<times> ('w \<Rightarrow> 'w)) list \<Rightarrow> nat
                        \<Rightarrow> pyfloat \<times> 'w \<times> 'w event list \<Rightarrow> pyfloat \<times> 'w \<times> 'w event list" where
  "train_batches zc zd test ep [] i acc = acc"
| "train_batches zc zd test ep (b # bs) i (epoch_loss, w, tr) =
     (let w = zc zd (snd b w);
          tr = tr @ [TrainBatch ep i];
          epoch_loss = fadd epoch_loss (fst b)
      in if isnan epoch_loss \<or> isinf epoch_loss then (epoch_loss, w, tr)
         else if test \<and> 5 \<le> i then (epoch_loss, w, tr)
         else train_batches zc zd test ep bs (Suc i) (epoch_loss, w, tr))"

text \<open>
  The training phase of an epoch, up to the deletions after the batch loop:
  \<^verbatim>\<open>
  epoch_loss = 0
  for ... (the batch loop)
  avg_loss = epoch_loss/n_loops
  del x
  \<close>
  \<^verbatim>\<open>x\<close> is unbound when no batch was yielded.
\<close>

definition train_phase :: "(zero_dict \<Rightarrow> 'w \<Rightarrow> 'w) \<Rightarrow> loop_hyps \<Rightarrow> 'w epoch_env \<Rightarrow> 'w loop_state
                             \<Rightarrow> error + 'w loop_state" where
  "train_phase zc h e s =
     (case train_batches zc (zero_dict s) (exp_name h = ''test'') (epoch s) (e_batches e) 0
             (Fin 0, heap s (model s), trace s) of
        (epoch_loss, w, tr) \<Rightarrow>
          (case fdiv epoch_loss (e_n_loops e) of
             Inl err \<Rightarrow> Inl err
           | Inr avg \<Rightarrow>
               if e_batches e = [] then Inl (NameError ''x'')
               else Inr (s\<lparr>heap := (heap s)(model s := w), trace := tr, avg_loss := avg\<rparr>)))"

text \<open>
  \<^verbatim>\<open>
  tup = validate_static(hyps,model,data_distr, loss_fn, step_size=step_size, ...)
  val_loss, val_preds, val_targs = tup
  val_loss = val_loss/n_loops
  ...
  val_acc = np.mean(pearsons)
  stop = self.stop_early(val_acc)
  ...
  scheduler.step(val_acc)
  ... (test subset) avg_pearson
  \<close>
\<close>

definition validation_phase :: "'w epoch_env \<Rightarrow> 'w loop_state \<Rightarrow> error + bool \<times> 'w loop_state" where
  "validation_phase e s =
     (let s = s\<lparr>trace := trace s @ [Validation (epoch s)]\<rparr>
      in case fdiv (e_val_loss e) (e_val_n_loops e) of
           Inl err \<Rightarrow> Inl err
         | Inr vl \<Rightarrow>
            (case stop_early (monitor s) (e_val_acc e) of
               (stop, self') \<Rightarrow>
                 Inr (stop, s\<lparr>val_loss := vl, val_acc := e_val_acc e, monitor := self',
                              lr := e_sched_lr e (lr s), avg_pearson := e_test_pearson e\<rparr>)))"

text \<open>
  \<^verbatim>\<open>
  prune = hyps_prune and epoch >= n_epochs-1
  intvl = (epoch-n_epochs) % hyps['prune_intvl'] == 0
  if prune and intvl:
      if epoch <= (n_epochs+hyps['prune_intvl']):
          prune_dict = { "zero_dict":zero_dict, "prev_state_dict":None, "cur_chan":-1,
                         "cur_layer":None, "prev_acc":-1, "prev_lr":cur_lr,
                         "min_acc":min_prune_acc}
          if hyps['exp_name'] == "test":
              val_acc = 0
      cur_lr = next(iter(optimizer.param_groups))['lr']
      ...
      prune_dict = tdrprune.prune_channels(model, hyps, data_sample, val_acc=val_acc,
                                           lr=cur_lr, **prune_dict)
      stop_training = len(hyps['open_layers'])==0
      if reset_sd:
          model.load_state_dict(og_state_dict)
          optimizer.load_state_dict(og_optim_dict)
          for param_group in optimizer.param_groups:
              param_group['lr'] = hyps['lr']
      else:
          for param_group in optimizer.param_groups:
              param_group['lr'] = prune_dict['prev_lr']
      if reset_lr and prune_dict['prev_acc']!=val_acc:
          for param_group in optimizer.param_groups:
              param_group['lr'] = hyps['lr']
      zero_dict = prune_dict['zero_dict']
      zero_bias = utils.try_key(hyps,'zero_bias',True)
      tdrprune.zero_chans(model, zero_dict,zero_bias)
      if stop_training and reset_sd:
          stop_training = False
          hyps_prune = False
          n_epochs = hyps['n_epochs'] + epoch
  \<close>
  The modulus is computed in every epoch, so \<^verbatim>\<open>prune_intvl = 0\<close> raises whether or
  not pruning is on. The statements after the call of \<^verbatim>\<open>prune_channels\<close> are
  modelled one by one: the bookkeeping of the call, the roll-back or the previous
  learning rate, the reset of the learning rate, the mask, and the switch to ordinary
  training.
\<close>

definition fresh_prune_dict :: "loop_hyps \<Rightarrow> 'w loop_state \<Rightarrow> error + 'w loop_state" where
  "fresh_prune_dict h s =
     (if epoch s \<le> n_epochs s + prune_intvl h
      then (case cur_lr s of
              None \<Rightarrow> Inl (NameError ''cur_lr'')
            | Some c \<Rightarrow>
                Inr (s\<lparr>prune_dict := Some \<lparr>pd_zero_dict = zero_dict s, pd_cur_chan = - 1,
                                          pd_cur_layer = None, pd_prev_acc = Fin (- 1),
                                          pd_prev_lr = c, pd_min_acc = min_prune_acc h\<rparr>,
                       val_acc := (if exp_name h = ''test'' then Fin 0 else val_acc s)\<rparr>))
      else Inr s)"

definition after_prune_channels :: "prune_rec \<Rightarrow> string list \<Rightarrow> 'w loop_state \<Rightarrow> 'w loop_state" where
  "after_prune_channels pd' open' s =
     s\<lparr>prune_dict := Some pd', open_layers := open',
       trace := trace s @ [PruneChannels (epoch s)],
       stop_training := (open' = [])\<rparr>"

definition restore_state :: "loop_hyps \<Rightarrow> prune_rec \<Rightarrow> 'w loop_state \<Rightarrow> 'w loop_state" where
  "restore_state h pd' s =
     (if reset_sd h
      then s\<lparr>heap := load_state_dict (model s) (og_state_dict s) (heap s),
             trace := trace s @ [LoadStateDict (epoch s)],
             lr := h_lr h\<rparr>
      else s\<lparr>lr := pd_prev_lr pd'\<rparr>)"

definition reset_rate :: "loop_hyps \<Rightarrow> prune_rec \<Rightarrow> 'w loop_state \<Rightarrow> 'w loop_state" where
  "reset_rate h pd' s =
     (if (reset_lr h \<and> \<not> null_scheduler h) \<and> fne (pd_prev_acc pd') (val_acc s)
      then s\<lparr>lr := h_lr h\<rparr> else s)"

definition apply_mask :: "(zero_dict \<Rightarrow> 'w \<Rightarrow> 'w) \<Rightarrow> prune_rec \<Rightarrow> 'w loop_state \<Rightarrow> 'w loop_state" where
  "apply_mask zc pd' s =
     s\<lparr>zero_dict := pd_zero_dict pd',
       heap := (heap s)(model s := zc (pd_zero_dict pd') (heap s (model s)))\<rparr>"

definition retrain_pruned :: "loop_hyps \<Rightarrow> 'w loop_state \<Rightarrow> 'w loop_state" where
  "retrain_pruned h s =
     (if stop_training s \<and> reset_sd h
      then s\<lparr>stop_training := False, hyps_prune := False,
             n_epochs := h_n_epochs h + epoch s\<rparr>
      else s)"

definition apply_pruning :: "(zero_dict \<Rightarrow> 'w \<Rightarrow> 'w) \<Rightarrow> loop_hyps \<Rightarrow> 'w epoch_env \<Rightarrow> prune_rec
                               \<Rightarrow> 'w loop_state \<Rightarrow> 'w loop_state" where
  "apply_pruning zc h e pd s =
     (case e_prune_channels e pd (val_acc s) (lr s) (open_layers s) of
        (pd', open') \<Rightarrow>
          retrain_pruned h
            (apply_mask zc pd'
              (reset_rate h pd'
                (restore_state h pd'
                  (after_prune_channels pd' open' s)))))"

definition prune_due :: "loop_hyps \<Rightarrow> 'w loop_state \<Rightarrow> bool" where
  "prune_due h s \<longleftrightarrow> (hyps_prune s \<and> n_epochs s - 1 \<le> epoch s)
                      \<and> (epoch s - n_epochs s) mod prune_intvl h = 0"

definition prune_phase :: "(zero_dict \<Rightarrow> 'w \<Rightarrow> 'w) \<Rightarrow> loop_hyps \<Rightarrow> 'w epoch_env \<Rightarrow> 'w loop_state
                             \<Rightarrow> error + 'w loop_state" where
  "prune_phase zc h e s =
     (if prune_intvl h = 0 then Inl ZeroDivisionError
      else if prune_due h s
      then (case fresh_prune_dict h s of
              Inl err \<Rightarrow> Inl err
            | Inr s1 \<Rightarrow>
               (let s2 = s1\<lparr>cur_lr := Some (lr s1)\<rparr>
                in case prune_dict s2 of
                     None \<Rightarrow> Inl (NameError ''prune_dict'')
                   | Some pd \<Rightarrow> Inr (apply_pruning zc h e pd s2)))
      else Inr s)"

text \<open>
  \<^verbatim>\<open>
  cur_lr = next(iter(optimizer.param_groups))['lr']
  optimizer.zero_grad()
  save_dict = { ..., "model_state_dict":model.state_dict(), ..., "loss": avg_loss,
                "epoch":epoch, "val_loss":val_loss, "val_acc":val_acc,
                "test_pearson":avg_pearson, ..., "zero_dict":zero_dict, ..., "cur_lr":cur_lr }
  ...
  tdrio.save_checkpoint(save_dict, hyps['save_folder'], 'test', del_prev=del_prev)
  \<close>
\<close>

definition save_checkpoint :: "'w loop_state \<Rightarrow> 'w loop_state" where
  "save_checkpoint s =
     s\<lparr>cur_lr := Some (lr s),
       trace := trace s @ [Checkpoint \<lparr>ck_epoch = epoch s, ck_loss = avg_loss s,
                                        ck_val_loss = val_loss s, ck_val_acc = val_acc s,
                                        ck_test_pearson = avg_pearson s,
                                        ck_zero_dict = zero_dict s, ck_cur_lr = lr s,
                                        ck_weights = heap s (state_dict (model s))\<rparr>]\<rparr>"

text \<open>
  One pass through the body of
  \<^verbatim>\<open>
  while not stop_training:
      epoch += 1
      stop_training = epoch >= n_epochs and not hyps_prune
      ... training, validation, pruning, checkpoint ...
      if math.isnan(avg_loss) or math.isinf(avg_loss) or stop:
          break
  \<close>
  The result says whether the body ended in \<^verbatim>\<open>break\<close>.
\<close>

definition epoch_body :: "(zero_dict \<Rightarrow> 'w \<Rightarrow> 'w) \<Rightarrow> loop_hyps \<Rightarrow> 'w epoch_env \<Rightarrow> 'w loop_state
                            \<Rightarrow> error + bool \<times> 'w loop_state" where
  "epoch_body zc h e s =
     (let s0 = s\<lparr>epoch := epoch s + 1,
                 stop_training := (n_epochs s \<le> epoch s + 1 \<and> \<not> hyps_prune s)\<rparr>
      in case train_phase zc h e s0 of
           Inl err \<Rightarrow> Inl err
         | Inr s1 \<Rightarrow>
            (case validation_phase e s1 of
               Inl err \<Rightarrow> Inl err
             | Inr (stop, s2) \<Rightarrow>
                (case prune_phase zc h e s2 of
                   Inl err \<Rightarrow> Inl err
                 | Inr s3 \<Rightarrow>
                    (let s4 = save_checkpoint s3
                     in Inr (isnan (avg_loss s4) \<or> isinf (avg_loss s4) \<or> stop, s4)))))"

text \<open>
  The loop. With pruning on and layers that stay open it does not end, so the result
  is optional: \<open>None\<close> is a run that never leaves the loop.
\<close>

partial_function (option) epoch_loop :: "(zero_dict \<Rightarrow> 'w \<Rightarrow> 'w) \<Rightarrow> loop_hyps \<Rightarrow> (int \<Rightarrow> 'w epoch_env)
                            \<Rightarrow> 'w loop_state \<Rightarrow> (error + 'w loop_state) option" where
  "epoch_loop zc h env s =
     (if stop_training s then Some (Inr s)
      else case epoch_body zc h (env (epoch s + 1)) s of
             Inl err \<Rightarrow> Some (Inl err)
           | Inr (brk, s') \<Rightarrow> if brk then Some (Inr s') else epoch_loop zc h env s')"

text \<open>
  The initialisations before the loop:
  \<^verbatim>\<open>
  og_state_dict = model.state_dict()
  ...
  if hyps['exp_name'] == "test":
      hyps['n_epochs'] = 2
      hyps['prune_intvl'] = 2
  ...
  hyps_prune = utils.try_key(hyps, 'prune', False)
  ...
  n_epochs = hyps['n_epochs']
  if hyps_prune and reset_sd:
      n_epochs = hyps['prune_intvl']
  zero_dict = {d:set() for d in hyps['prune_layers']}
  ...
  epoch = -1
  stop_training = False
  \<close>
  The model's parameters are at address 0 and hold \<open>w0\<close>; the optimizer starts at
  \<^verbatim>\<open>hyps['lr']\<close>.
\<close>

definition init_hyps :: "loop_hyps \<Rightarrow> loop_hyps" where
  "init_hyps h = (if exp_name h = ''test'' then h\<lparr>h_n_epochs := 2, prune_intvl := 2\<rparr> else h)"

definition init_state :: "loop_hyps \<Rightarrow> trainer \<Rightarrow> 'w \<Rightarrow> 'w loop_state" where
  "init_state h self w0 =
     \<lparr>epoch = - 1, stop_training = False,
      n_epochs = (if prune h \<and> reset_sd h then prune_intvl h else h_n_epochs h),
      hyps_prune = prune h,
      zero_dict = map (\<lambda>d. (d, [])) (prune_layers h),
      cur_lr = None, prune_dict = None,
      avg_loss = Fin 0, val_loss = Fin 0, val_acc = Fin 0, avg_pearson = Fin 0,
      open_layers = h_open_layers h, lr = h_lr h,
      model = 0, og_state_dict = state_dict 0, heap = (\<lambda>a. w0),
      monitor = self, trace = []\<rparr>"

definition train_fold :: "(zero_dict \<Rightarrow> 'w \<Rightarrow> 'w) \<Rightarrow> loop_hyps \<Rightarrow> (int \<Rightarrow> 'w epoch_env) \<Rightarrow> trainer \<Rightarrow> 'w
                            \<Rightarrow> (error + 'w loop_state) option" where
  "train_fold zc h env self w0 = epoch_loop zc (init_hyps h) env (init_state (init_hyps h) self w0)"

text \<open>Reading a run: the checkpoints written, in order.\<close>

fun checkpoints :: "'w event list \<Rightarrow> 'w checkpoint list" where
  "checkpoints [] = []"
| "checkpoints (Checkpoint c # evs) = c # checkpoints evs"
| "checkpoints (ev # evs) = checkpoints evs"

definition checkpoints_of :: "(error + 'w loop_state) option \<Rightarrow> 'w checkpoint list" where
  "checkpoints_of r = (case r of Some (Inr s) \<Rightarrow> checkpoints (trace s) | _ \<Rightarrow> [])"

text \<open>The epochs in which the model was rolled back.\<close>

fun rollbacks :: "'w event list \<Rightarrow> int list" where
  "rollbacks [] = []"
| "rollbacks (LoadStateDict ep # evs) = ep # rollbacks evs"
| "rollbacks (ev # evs) = rollbacks evs"

definition rollbacks_of :: "(error + 'w loop_state) option \<Rightarrow> int list" where
  "rollbacks_of r = (case r of Some (Inr s) \<Rightarrow> rollbacks (trace s) | _ \<Rightarrow> [])"

text \<open>
  Notions used to state properties of an epoch: a float that is NaN or infinite; the
  training loss accumulated after the first \<open>j\<close> batches; the batch loop seen from the
  losses alone (the accumulated loss at its exit and the number of batches it
  processed); the conditions under which the pruning block raises nothing; and the
  collaborator calls that the pruning block makes.
\<close>

definition nonfinite :: "pyfloat \<Rightarrow> bool" where
  "nonfinite x \<longleftrightarrow> isnan x \<or> isinf x"

definition acc_loss :: "pyfloat list \<Rightarrow> nat \<Rightarrow> pyfloat" where
  "acc_loss ls j = foldl fadd (Fin 0) (take j ls)"

fun batch_loop :: "bool \<Rightarrow> pyfloat list \<Rightarrow> nat \<Rightarrow> pyfloat \<Rightarrow> pyfloat \<times> nat" where
  "batch_loop test [] i epoch_loss = (epoch_loss, 0)"
| "batch_loop test (x # xs) i epoch_loss =
     (let epoch_loss = fadd epoch_loss x
      in if isnan epoch_loss \<or> isinf epoch_loss then (epoch_loss, 1)
         else if test \<and> 5 \<le> i then (epoch_loss, 1)
         else (case batch_loop test xs (Suc i) epoch_loss of (l, n) \<Rightarrow> (l, Suc n)))"

definition prune_safe :: "loop_hyps \<Rightarrow> 'w loop_state \<Rightarrow> bool" where
  "prune_safe h s \<longleftrightarrow>
     prune_intvl h \<noteq> 0
     \<and> (if prune_due h s
        then (if epoch s \<le> n_epochs s + prune_intvl h then cur_lr s \<noteq> None
              else prune_dict s \<noteq> None)
        else True)"

definition prune_events :: "loop_hyps \<Rightarrow> 'w loop_state \<Rightarrow> 'w event list" where
  "prune_events h s =
     (if prune_due h s
      then PruneChannels (epoch s) # (if reset_sd h then [LoadStateDict (epoch s)] else [])
      else [])"

text \<open>
  An epoch in which nothing stops the loop: there is a batch, the loop counts are not
  zero, and the loss accumulated by the batch loop is finite.
\<close>

definition quiet_epoch :: "loop_hyps \<Rightarrow> 'w epoch_env \<Rightarrow> bool" where
  "quiet_epoch h e \<longleftrightarrow>
     e_batches e \<noteq> [] \<and> e_n_loops e \<noteq> 0 \<and> e_val_n_loops e \<noteq> 0
     \<and> \<not> nonfinite (fst (batch_loop (exp_name h = ''test'') (map fst (e_batches e)) 0 (Fin 0)))"

text \<open>
  Example inputs. Parameters are a single integer, every epoch has one batch with loss
  1 whose optimizer step adds 1 to the parameters, and masking leaves them alone.
\<close>

definition mask_example :: "zero_dict \<Rightarrow> int \<Rightarrow> int" where
  "mask_example zd w = w"

definition plain_epoch :: "int epoch_env" where
  "plain_epoch =
     \<lparr>e_batches = [(Fin 1, \<lambda>w. w + 1)], e_n_loops = 1,
      e_val_loss = Fin 1, e_val_n_loops = 1, e_val_acc = Fin 0.5,
      e_sched_lr = (\<lambda>l. l), e_test_pearson = Fin 0,
      e_prune_channels = (\<lambda>pd va l ol. (pd, []))\<rparr>"

definition plain_env :: "int \<Rightarrow> int epoch_env" where
  "plain_env ep = plain_epoch"

definition nan_val_env :: "int \<Rightarrow> int epoch_env" where
  "nan_val_env ep = plain_epoch\<lparr>e_val_loss := NaN\<rparr>"

definition nan_batch_epoch :: "int epoch_env" where
  "nan_batch_epoch =
     plain_epoch\<lparr>e_batches := [(Fin 1, \<lambda>w. w + 1), (NaN, \<lambda>w. w + 1), (Fin 1, \<lambda>w. w + 1)],
                 e_n_loops := 3\<rparr>"

definition nan_batch_env :: "int \<Rightarrow> int epoch_env" where
  "nan_batch_env ep = nan_batch_epoch"

definition two_epochs :: loop_hyps where
  "two_epochs =
     \<lparr>exp_name = ''demo'', h_n_epochs = 2, prune_intvl = 2, prune = False, reset_sd = False,
      reset_lr = False, null_scheduler = True, min_prune_acc = Fin 0, h_lr = Fin 0.001,
      prune_layers = [], h_open_layers = []\<rparr>"

definition prune_reset :: loop_hyps where
  "prune_reset =
     \<lparr>exp_name = ''demo'', h_n_epochs = 1, prune_intvl = 2, prune = True, reset_sd = True,
      reset_lr = False, null_scheduler = True, min_prune_acc = Fin 0, h_lr = Fin 0.001,
      prune_layers = [''sequential.0''], h_open_layers = [''sequential.0'']\<rparr>"

definition no_early_stopping :: trainer where
  "no_early_stopping = \<lparr>early_stopping = 0, tolerance = Fin 0.01, prev_acc = None, stop_count = 0\<rparr>"

section \<open>Theorems\<close>

subsection \<open>C1: early stopping\<close>

text \<open>
  With a patience of 2 or more, a call that does not return true leaves the counter
  at 0 and stores its metric, whether the metric improved or not.
\<close>

lemma stop_early_below_patience:
  assumes "2 \<le> early_stopping t" and "prev_acc t = None \<or> stop_count t = 0"
  shows "stop_early t acc = (False, t\<lparr>stop_count := 0, prev_acc := Some acc\<rparr>)"
  using assms by (auto simp: stop_early_def Let_def split: option.splits)

text \<open>
  C1 fails on the code. The claim, as the docstring of \<^verbatim>\<open>Trainer\<close> (\<^verbatim>\<open>early_stopping\<close>:
  the number of epochs to wait before doing early stopping; \<^verbatim>\<open>stop_tolerance\<close>: the
  amount that the loss must increase by to reset the early stopping epoch count),
  has the counter grow over consecutive calls that fail to improve, and reset only
  on an improvement. In \<^verbatim>\<open>stop_early\<close> the two reset assignments follow the inner
  \<^verbatim>\<open>if\<close> without an \<^verbatim>\<open>else\<close>, so they also run after a failing call that has not
  reached the patience. Hence for every patience of 2 or more and every tolerance, a
  monitor that is fresh, or has its counter at 0, never answers true: whatever the
  metrics \<open>accs @ [acc]\<close> of the epochs are, every call returns false, and the run
  ends with the counter at 0 and the last metric stored.
\<close>

theorem c1_patience_never_reached:
  assumes "2 \<le> early_stopping t" and "prev_acc t = None \<or> stop_count t = 0"
  shows "observe_all t (accs @ [acc])
           = (replicate (Suc (length accs)) False, t\<lparr>stop_count := 0, prev_acc := Some acc\<rparr>)"
  using assms
proof (induction accs arbitrary: t)
  case Nil
  then show ?case by (simp add: stop_early_below_patience)
next
  case (Cons a accs)
  let ?t' = "t\<lparr>stop_count := 0, prev_acc := Some a\<rparr>"
  have step: "stop_early t a = (False, ?t')"
    using Cons.prems by (rule stop_early_below_patience)
  have "observe_all ?t' (accs @ [acc])
          = (replicate (Suc (length accs)) False, ?t'\<lparr>stop_count := 0, prev_acc := Some acc\<rparr>)"
    using Cons.prems by (intro Cons.IH) simp_all
  with step show ?case by simp
qed

theorem c1_patience_never_reached_witness:
  "(2::int) \<le> 2
   \<and> observe_all \<lparr>early_stopping = 2, tolerance = Fin 0.01, prev_acc = None, stop_count = 0\<rparr>
       [Fin 0.5, Fin 0.4, Fin 0.3, Fin 0.2]
     = ([False, False, False, False],
        \<lparr>early_stopping = 2, tolerance = Fin 0.01, prev_acc = Some (Fin 0.2), stop_count = 0\<rparr>)"
proof -
  let ?t = "\<lparr>early_stopping = 2, tolerance = Fin 0.01, prev_acc = None, stop_count = 0\<rparr>"
  have pat: "2 \<le> early_stopping ?t" and fresh: "prev_acc ?t = None \<or> stop_count ?t = 0"
    by simp_all
  from c1_patience_never_reached [OF pat fresh, of "[Fin 0.5, Fin 0.4, Fin 0.3]" "Fin 0.2"]
  show ?thesis by (simp add: numeral_eq_Suc)
qed
subsection \<open>The sweep engine\<close>

text \<open>Defaults never overwrite a value that is present.\<close>

lemma set_default_keeps: "h k = Some v \<Longrightarrow> set_default h kd k = Some v"
  by (auto simp: set_default_def try_key_def)

lemma foldl_set_default_keeps: "h k = Some v \<Longrightarrow> foldl set_default h ds k = Some v"
  by (induction ds arbitrary: h) (simp_all add: set_default_keeps)

lemma foldl_set_default_new:
  "h k = None \<Longrightarrow> map_of ds k = Some d \<Longrightarrow> foldl set_default h ds k = Some d"
proof (induction ds arbitrary: h)
  case Nil
  then show ?case by simp
next
  case (Cons kd ds)
  show ?case
  proof (cases "fst kd = k")
    case True
    with Cons.prems have "set_default h kd k = Some d"
      by (cases kd) (simp add: set_default_def try_key_def)
    then show ?thesis by (simp add: foldl_set_default_keeps)
  next
    case False
    with Cons.prems have "set_default h kd k = None" "map_of ds k = Some d"
      by (cases kd; simp add: set_default_def)+
    then show ?thesis using Cons.IH by simp
  qed
qed

lemma first_n_repeats:
  "foldl set_default h defaults_first ''n_repeats'' = Some (try_key h ''n_repeats'' (PInt 1))"
proof (cases "h ''n_repeats''")
  case None
  moreover have "map_of defaults_first ''n_repeats'' = Some (PInt 1)"
    by (simp add: defaults_first_def)
  ultimately show ?thesis
    by (simp add: foldl_set_default_new try_key_def)
next
  case (Some v)
  then show ?thesis
    by (simp add: foldl_set_default_keeps try_key_def)
qed

lemma ensure_hyps_Inr:
  assumes ok: "ensure_ok h"
  shows "\<exists>h1. ensure_hyps h = Inr h1
           \<and> (\<forall>k v. k \<noteq> ''prune_intvl'' \<longrightarrow> h k = Some v \<longrightarrow> h1 k = Some v)
           \<and> (\<forall>k. h k \<noteq> None \<longrightarrow> h1 k \<noteq> None)
           \<and> h1 ''n_repeats'' = Some (try_key h ''n_repeats'' (PInt 1))
           \<and> ensure_ok h1"
proof -
  define h0 where "h0 = foldl set_default h defaults_first"
  have keep0: "h0 k = Some v" if "h k = Some v" for k v
    using that by (simp add: h0_def foldl_set_default_keeps)
  have rep0: "h0 ''n_repeats'' = Some (try_key h ''n_repeats'' (PInt 1))"
    by (simp add: h0_def first_n_repeats)
  show ?thesis
  proof (cases "h0 ''prune_intvl'' = Some PNone")
    case True
    have "\<not> (\<exists>v. h ''prune_intvl'' = Some v \<and> v \<noteq> PNone)"
    proof
      assume "\<exists>v. h ''prune_intvl'' = Some v \<and> v \<noteq> PNone"
      then obtain v where "h ''prune_intvl'' = Some v" and "v \<noteq> PNone" by blast
      then have "h0 ''prune_intvl'' = Some v" by (simp add: keep0)
      with True \<open>v \<noteq> PNone\<close> show False by simp
    qed
    with ok obtain n where n: "h ''n_epochs'' = Some n"
      by (auto simp: ensure_ok_def)
    then have n0: "h0 ''n_epochs'' = Some n" by (rule keep0)
    define h1 where "h1 = foldl set_default (h0(''prune_intvl'' \<mapsto> n)) defaults_rest"
    have res: "ensure_hyps h = Inr h1"
      using True n0 by (simp add: ensure_hyps_def h0_def [symmetric] h1_def)
    have keep1: "h1 k = Some v" if "k \<noteq> ''prune_intvl''" and "h k = Some v" for k v
      using that by (simp add: h1_def foldl_set_default_keeps keep0)
    have "h1 ''n_repeats'' = Some (try_key h ''n_repeats'' (PInt 1))"
      by (simp add: h1_def foldl_set_default_keeps rep0)
    moreover have "ensure_ok h1"
      using keep1 [OF _ n] by (simp add: ensure_ok_def)
    moreover have "h1 ''prune_intvl'' = Some n"
      by (simp add: h1_def foldl_set_default_keeps)
    then have "\<forall>k. h k \<noteq> None \<longrightarrow> h1 k \<noteq> None"
      using keep1 by (metis option.distinct(1) not_None_eq)
    ultimately show ?thesis using res keep1 by blast
  next
    case False
    define h1 where "h1 = foldl set_default h0 defaults_rest"
    have res: "ensure_hyps h = Inr h1"
      using False by (simp add: ensure_hyps_def h0_def [symmetric] h1_def)
    have keep1: "h1 k = Some v" if "h k = Some v" for k v
      using that by (simp add: h1_def foldl_set_default_keeps keep0)
    have "h1 ''n_repeats'' = Some (try_key h ''n_repeats'' (PInt 1))"
      by (simp add: h1_def foldl_set_default_keeps rep0)
    moreover have "ensure_ok h1"
      using ok keep1 by (auto simp: ensure_ok_def)
    moreover have "\<forall>k. h k \<noteq> None \<longrightarrow> h1 k \<noteq> None"
      using keep1 by auto
    ultimately show ?thesis using res keep1 by blast
  qed
qed

lemma add_search_keys_string:
  "''search_keys'' \<notin> set ks \<Longrightarrow> (\<forall>k \<in> set ks. h k \<noteq> None) \<Longrightarrow> h ''search_keys'' = Some (PStr s)
     \<Longrightarrow> add_search_keys ext cp ks h
           = Inr (h(''search_keys'' \<mapsto> PStr (s @ search_key_string ext cp h ks)))"
proof (induction ks arbitrary: h s)
  case Nil
  then show ?case by (simp add: search_key_string_def map_upd_triv)
next
  case (Cons k ks)
  from Cons.prems obtain x where x: "h k = Some x" by auto
  define v where "v = key_value ext cp h k"
  define h' where "h' = h(''search_keys'' \<mapsto> PStr (s @ ''_'' @ k @ v))"
  have kv: "key_value ext cp h' ka = key_value ext cp h ka" if "ka \<in> set ks" for ka
    using that Cons.prems(1) by (auto simp: key_value_def h'_def)
  have same: "search_key_string ext cp h' ks = search_key_string ext cp h ks"
    by (simp add: search_key_string_def kv cong: map_cong)
  have "''search_keys'' \<notin> set ks" using Cons.prems(1) by simp
  moreover have "\<forall>k \<in> set ks. h' k \<noteq> None" using Cons.prems by (simp add: h'_def)
  moreover have "h' ''search_keys'' = Some (PStr (s @ ''_'' @ k @ v))" by (simp add: h'_def)
  ultimately have "add_search_keys ext cp ks h'
      = Inr (h'(''search_keys'' \<mapsto> PStr ((s @ ''_'' @ k @ v) @ search_key_string ext cp h' ks)))"
    by (rule Cons.IH)
  moreover have "add_search_keys ext cp (k # ks) h = add_search_keys ext cp ks h'"
    using x Cons.prems(3) by (simp add: h'_def v_def key_value_def Let_def)
  moreover have "h'(''search_keys'' \<mapsto> PStr t) = h(''search_keys'' \<mapsto> PStr t)" for t
    by (simp add: h'_def)
  moreover have "search_key_string ext cp h (k # ks) = ''_'' @ k @ v @ search_key_string ext cp h ks"
    by (simp add: search_key_string_def v_def)
  ultimately show ?case
    by (simp only: same append_assoc)
qed

lemma repeat_put_same:
  assumes "add_search_keys ext cp keys (h(''search_keys'' \<mapsto> PStr [])) = Inr h'"
    and "h' = h(''search_keys'' \<mapsto> PStr s)"
  shows "repeat_put ext cp (Suc n) keys h q = Inr (h', q @ replicate (Suc n) h')"
proof -
  have again: "add_search_keys ext cp keys (h'(''search_keys'' \<mapsto> PStr [])) = Inr h'"
    using assms by simp
  have "repeat_put ext cp n keys h' q' = Inr (h', q' @ replicate n h')" for q'
  proof (induction n arbitrary: q')
    case 0
    show ?case by simp
  next
    case (Suc n)
    then show ?case using again by (simp add: replicate_app_Cons_same)
  qed
  then show ?thesis using assms(1) by (simp add: replicate_app_Cons_same)
qed


lemma base_call_repeats:
  assumes ok: "ensure_ok hyps"
    and rep: "try_key hyps ''n_repeats'' (PInt 1) = PInt n" and pos: "0 < n"
    and keys: "''search_keys'' \<notin> set keys" "\<forall>k \<in> set keys. hyps k \<noteq> None"
  shows "\<exists>h1 h'. ensure_hyps hyps = Inr h1
           \<and> h' = h1(''search_keys'' \<mapsto> PStr (search_key_string ext cp h1 keys))
           \<and> base_call ext cp keys hyps q = Inr (h', q @ replicate (nat n) h')"
proof -
  from ensure_hyps_Inr [OF ok] obtain h1 where h1: "ensure_hyps hyps = Inr h1"
    and present: "\<And>k. hyps k \<noteq> None \<Longrightarrow> h1 k \<noteq> None"
    and nrep: "h1 ''n_repeats'' = Some (PInt n)"
    using rep by auto
  define h2 where "h2 = h1(''search_keys'' \<mapsto> PStr [])"
  have kv: "key_value ext cp h2 k = key_value ext cp h1 k" if "k \<in> set keys" for k
    using that keys(1) by (auto simp: key_value_def h2_def)
  have str: "search_key_string ext cp h2 keys = search_key_string ext cp h1 keys"
    by (simp add: search_key_string_def kv cong: map_cong)
  have "\<forall>k \<in> set keys. h2 k \<noteq> None"
    using keys present by (auto simp: h2_def)
  moreover have "h2 ''search_keys'' = Some (PStr [])" by (simp add: h2_def)
  ultimately have add: "add_search_keys ext cp keys h2
      = Inr (h2(''search_keys'' \<mapsto> PStr ([] @ search_key_string ext cp h2 keys)))"
    using keys(1) by (intro add_search_keys_string) auto
  define h' where "h' = h1(''search_keys'' \<mapsto> PStr (search_key_string ext cp h1 keys))"
  have add': "add_search_keys ext cp keys (h1(''search_keys'' \<mapsto> PStr [])) = Inr h'"
    using add unfolding str by (simp add: h2_def h'_def)
  from pos obtain m where m: "nat n = Suc m" by (cases "nat n") auto
  have "repeat_put ext cp (Suc m) keys h1 q = Inr (h', q @ replicate (Suc m) h')"
    using add' by (rule repeat_put_same) (simp add: h'_def)
  then have "base_call ext cp keys hyps q = Inr (h', q @ replicate (nat n) h')"
    using h1 nrep m by (simp add: base_call_def try_key_def)
  then show ?thesis using h1 h'_def by blast
qed

lemma sweep_ready_upd:
  "sweep_ready h \<Longrightarrow> k \<noteq> ''n_epochs'' \<Longrightarrow> k \<noteq> ''prune_intvl'' \<Longrightarrow> k \<noteq> ''n_repeats''
     \<Longrightarrow> sweep_ready (h(k \<mapsto> v))"
  by (simp add: sweep_ready_def ensure_ok_def try_key_def)

lemma base_call_ab:
  assumes ready: "sweep_ready h" and a: "h ''a'' = Some x" and b: "h ''b'' = Some y"
  shows "\<exists>h'. base_call ext cp [''a'', ''b''] h q = Inr (h', q @ [h'])
           \<and> sweep_ready h' \<and> h' ''a'' = Some x \<and> h' ''b'' = Some y
           \<and> h' ''search_keys'' = Some (PStr (''_a'' @ str_py ext x @ ''_b'' @ str_py ext y))"
proof -
  from ready have ok: "ensure_ok h" and rep: "try_key h ''n_repeats'' (PInt 1) = PInt 1"
    by (simp_all add: sweep_ready_def)
  have keys: "''search_keys'' \<notin> set [''a'', ''b'']" "\<forall>k \<in> set [''a'', ''b'']. h k \<noteq> None"
    using a b by simp_all
  from base_call_repeats [OF ok rep _ keys, of ext cp q]
  obtain h1 h' where h1: "ensure_hyps h = Inr h1"
    and h': "h' = h1(''search_keys'' \<mapsto> PStr (search_key_string ext cp h1 [''a'', ''b'']))"
    and res: "base_call ext cp [''a'', ''b''] h q = Inr (h', q @ [h'])"
    by auto
  from ensure_hyps_Inr [OF ok] h1
  have keep: "\<And>k v. k \<noteq> ''prune_intvl'' \<Longrightarrow> h k = Some v \<Longrightarrow> h1 k = Some v"
    and nrep: "h1 ''n_repeats'' = Some (PInt 1)" and ok1: "ensure_ok h1"
    using rep by auto
  have a1: "h1 ''a'' = Some x" and b1: "h1 ''b'' = Some y"
    using keep a b by simp_all
  have "sweep_ready h'"
    using ok1 nrep by (simp add: h' sweep_ready_def ensure_ok_def try_key_def)
  moreover have "h' ''a'' = Some x" "h' ''b'' = Some y"
    using a1 b1 by (simp_all add: h')
  moreover have "h' ''search_keys'' = Some (PStr (''_a'' @ str_py ext x @ ''_b'' @ str_py ext y))"
    using a1 b1 by (simp add: h' search_key_string_def key_value_def)
  ultimately show ?thesis using res by blast
qed

lemma fill_level2:
  "fill_hyper_q ext cp h R [''a'', ''b''] q (Suc (Suc 0)) = base_call ext cp [''a'', ''b''] h q"
  by (simp add: fill_hyper_q.simps [of _ _ _ _ _ _ "Suc (Suc 0)"])


lemma ab_keys: "map fst ab_ranges = [''a'', ''b'']"
  by (simp add: ab_ranges_def)

lemma fill_level1:
  "fill_hyper_q ext cp h ab_ranges [''a'', ''b''] q (Suc 0) =
     (case base_call ext cp [''a'', ''b''] (h(''b'' \<mapsto> PInt 3)) q of
        Inl e \<Rightarrow> Inl e
      | Inr (h', q') \<Rightarrow> base_call ext cp [''a'', ''b''] (h'(''b'' \<mapsto> PInt 4)) q')"
  by (simp add: fill_hyper_q.simps [of _ _ _ _ _ _ "Suc 0"] fill_level2 ab_ranges_def
           split: sum.splits)

lemma fill_level0:
  "fill_hyper_q ext cp h ab_ranges [''a'', ''b''] q 0 =
     (case fill_hyper_q ext cp (h(''a'' \<mapsto> PInt 1)) ab_ranges [''a'', ''b''] q (Suc 0) of
        Inl e \<Rightarrow> Inl e
      | Inr (h', q') \<Rightarrow> fill_hyper_q ext cp (h'(''a'' \<mapsto> PInt 2)) ab_ranges [''a'', ''b''] q' (Suc 0))"
  by (simp add: fill_hyper_q.simps [of _ _ _ _ _ _ 0] ab_ranges_def split: sum.splits)

lemma str_digit: "str_int 1 = ''1''" "str_int 2 = ''2''" "str_int 3 = ''3''" "str_int 4 = ''4''"
  by (simp_all add: str_int_def digits10.simps)

lemma fill_level1_ab:
  assumes ready: "sweep_ready h" and a: "h ''a'' = Some (PInt i)"
  shows "\<exists>h' c1 c2. fill_hyper_q ext cp h ab_ranges [''a'', ''b''] q (Suc 0) = Inr (h', q @ [c1, c2])
           \<and> sweep_ready h'
           \<and> c1 ''a'' = Some (PInt i) \<and> c1 ''b'' = Some (PInt 3)
           \<and> c1 ''search_keys'' = Some (PStr (''_a'' @ str_int i @ ''_b3''))
           \<and> c2 ''a'' = Some (PInt i) \<and> c2 ''b'' = Some (PInt 4)
           \<and> c2 ''search_keys'' = Some (PStr (''_a'' @ str_int i @ ''_b4''))"
proof -
  have r1: "sweep_ready (h(''b'' \<mapsto> PInt 3))"
    using ready by (simp add: sweep_ready_upd)
  from base_call_ab [OF r1, of "PInt i" "PInt 3" ext cp q] a
  obtain c1 where c1: "base_call ext cp [''a'', ''b''] (h(''b'' \<mapsto> PInt 3)) q = Inr (c1, q @ [c1])"
    and rc1: "sweep_ready c1" and c1a: "c1 ''a'' = Some (PInt i)" and c1b: "c1 ''b'' = Some (PInt 3)"
    and c1s: "c1 ''search_keys'' = Some (PStr (''_a'' @ str_int i @ ''_b3''))"
    by (auto simp: str_digit)
  have r2: "sweep_ready (c1(''b'' \<mapsto> PInt 4))"
    using rc1 by (simp add: sweep_ready_upd)
  from base_call_ab [OF r2, of "PInt i" "PInt 4" ext cp "q @ [c1]"] c1a
  obtain c2 where c2: "base_call ext cp [''a'', ''b''] (c1(''b'' \<mapsto> PInt 4)) (q @ [c1])
                         = Inr (c2, (q @ [c1]) @ [c2])"
    and rc2: "sweep_ready c2" and c2a: "c2 ''a'' = Some (PInt i)" and c2b: "c2 ''b'' = Some (PInt 4)"
    and c2s: "c2 ''search_keys'' = Some (PStr (''_a'' @ str_int i @ ''_b4''))"
    by (auto simp: str_digit)
  have "fill_hyper_q ext cp h ab_ranges [''a'', ''b''] q (Suc 0) = Inr (c2, q @ [c1, c2])"
    by (simp add: fill_level1 c1 c2)
  then show ?thesis
    using rc2 c1a c1b c1s c2a c2b c2s by blast
qed

text \<open>
  C3: for a base configuration that the base call accepts (it gives \<^verbatim>\<open>n_epochs\<close>, or a
  \<^verbatim>\<open>prune_intvl\<close> other than \<^verbatim>\<open>None\<close>) and that is not repeated (\<^verbatim>\<open>n_repeats\<close>
  absent or 1), the ranges \<^verbatim>\<open>{a: [1,2], b: [3,4]}\<close> put exactly four configurations on
  the queue, in the nested order (1,3), (1,4), (2,3), (2,4), with the pairwise distinct
  search keys \<^verbatim>\<open>_a1_b3\<close>, \<^verbatim>\<open>_a1_b4\<close>, \<^verbatim>\<open>_a2_b3\<close>, \<^verbatim>\<open>_a2_b4\<close>.
\<close>

theorem c3_sweep_ab:
  assumes "ensure_ok hyps" and "try_key hyps ''n_repeats'' (PInt 1) = PInt 1"
  shows "\<exists>h q. hyper_q_of ext cp hyps ab_ranges = Inr (h, q)
           \<and> length q = 4
           \<and> queue_column ''a'' q = [Some (PInt 1), Some (PInt 1), Some (PInt 2), Some (PInt 2)]
           \<and> queue_column ''b'' q = [Some (PInt 3), Some (PInt 4), Some (PInt 3), Some (PInt 4)]
           \<and> queue_column ''search_keys'' q
               = [Some (PStr ''_a1_b3''), Some (PStr ''_a1_b4''),
                  Some (PStr ''_a2_b3''), Some (PStr ''_a2_b4'')]
           \<and> distinct (queue_column ''search_keys'' q)"
proof -
  from assms have ready: "sweep_ready hyps" by (simp add: sweep_ready_def)
  have r1: "sweep_ready (hyps(''a'' \<mapsto> PInt 1))"
    using ready by (simp add: sweep_ready_upd)
  from fill_level1_ab [OF r1, of 1 ext cp "[]"]
  obtain h1 c1 c2 where f1: "fill_hyper_q ext cp (hyps(''a'' \<mapsto> PInt 1)) ab_ranges [''a'', ''b''] [] (Suc 0)
                               = Inr (h1, [c1, c2])"
    and rh1: "sweep_ready h1"
    and c1: "c1 ''a'' = Some (PInt 1)" "c1 ''b'' = Some (PInt 3)" "c1 ''search_keys'' = Some (PStr ''_a1_b3'')"
    and c2: "c2 ''a'' = Some (PInt 1)" "c2 ''b'' = Some (PInt 4)" "c2 ''search_keys'' = Some (PStr ''_a1_b4'')"
    by (auto simp: str_digit)
  have r2: "sweep_ready (h1(''a'' \<mapsto> PInt 2))"
    using rh1 by (simp add: sweep_ready_upd)
  from fill_level1_ab [OF r2, of 2 ext cp "[c1, c2]"]
  obtain h2 c3 c4 where f2: "fill_hyper_q ext cp (h1(''a'' \<mapsto> PInt 2)) ab_ranges [''a'', ''b''] [c1, c2] (Suc 0)
                               = Inr (h2, [c1, c2, c3, c4])"
    and c3: "c3 ''a'' = Some (PInt 2)" "c3 ''b'' = Some (PInt 3)" "c3 ''search_keys'' = Some (PStr ''_a2_b3'')"
    and c4: "c4 ''a'' = Some (PInt 2)" "c4 ''b'' = Some (PInt 4)" "c4 ''search_keys'' = Some (PStr ''_a2_b4'')"
    by (auto simp: str_digit)
  have "hyper_q_of ext cp hyps ab_ranges = Inr (h2, [c1, c2, c3, c4])"
    using f1 f2 by (simp add: hyper_q_of_def fill_level0 ab_keys)
  then show ?thesis
    using c1 c2 c3 c4 by (simp add: queue_column_def)
qed

theorem c3_sweep_ab_witness:
  "ensure_ok base_example \<and> try_key base_example ''n_repeats'' (PInt 1) = PInt 1
   \<and> length (queue_of (hyper_q_of repr_example ckpt_example base_example ab_ranges)) = 4
   \<and> queue_column ''search_keys''
        (queue_of (hyper_q_of repr_example ckpt_example base_example ab_ranges))
       = [Some (PStr ''_a1_b3''), Some (PStr ''_a1_b4''),
          Some (PStr ''_a2_b3''), Some (PStr ''_a2_b4'')]"
proof -
  have ok: "ensure_ok base_example"
    by (simp add: ensure_ok_def base_example_def)
  have rep: "try_key base_example ''n_repeats'' (PInt 1) = PInt 1"
    by (simp add: try_key_def base_example_def)
  from c3_sweep_ab [OF ok rep, of repr_example ckpt_example]
  show ?thesis using ok rep by (auto simp: queue_of_def)
qed

text \<open>
  C9, as stated, fails on the code: with \<^verbatim>\<open>n_repeats = 2\<close> the two entries queued
  for a sweep point are the same configuration, seed included.
\<close>

theorem c9_counterexample:
  "queue_column ''seed''
      (queue_of (hyper_q_of repr_example ckpt_example seeded_example [(''a'', [PInt 1])]))
     = [Some (PInt 7), Some (PInt 7)]
   \<and> queue_of (hyper_q_of repr_example ckpt_example seeded_example [(''a'', [PInt 1])]) ! 0
     = queue_of (hyper_q_of repr_example ckpt_example seeded_example [(''a'', [PInt 1])]) ! 1"
proof -
  have ok: "ensure_ok seeded_point"
    by (simp add: ensure_ok_def seeded_point_def seeded_example_def)
  have rep: "try_key seeded_point ''n_repeats'' (PInt 1) = PInt 2"
    by (simp add: try_key_def seeded_point_def seeded_example_def)
  have pos: "(0::int) < 2" by simp
  have keys: "''search_keys'' \<notin> set [''a'']" "\<forall>k \<in> set [''a'']. seeded_point k \<noteq> None"
    by (simp_all add: seeded_point_def)
  from base_call_repeats [OF ok rep pos keys, of repr_example ckpt_example "[]"]
  obtain h1 h' where h1: "ensure_hyps seeded_point = Inr h1"
    and h': "h' = h1(''search_keys'' \<mapsto> PStr (search_key_string repr_example ckpt_example h1 [''a'']))"
    and res: "base_call repr_example ckpt_example [''a''] seeded_point [] = Inr (h', [] @ replicate (nat 2) h')"
    by blast
  have "seeded_point ''seed'' = Some (PInt 7)"
    by (simp add: seeded_point_def seeded_example_def)
  with ensure_hyps_Inr [OF ok] h1 have "h1 ''seed'' = Some (PInt 7)"
    by (elim exE conjE) simp
  then have seed: "h' ''seed'' = Some (PInt 7)"
    by (simp add: h')
  have "hyper_q_of repr_example ckpt_example seeded_example [(''a'', [PInt 1])]
          = base_call repr_example ckpt_example [''a''] seeded_point []"
    by (simp add: hyper_q_of_def seeded_point_def fill_hyper_q.simps [of _ _ _ _ _ _ 0]
                  fill_hyper_q.simps [of _ _ _ _ _ _ "Suc 0"])
  then have "queue_of (hyper_q_of repr_example ckpt_example seeded_example [(''a'', [PInt 1])])
               = [h', h']"
    using res by (simp add: queue_of_def numeral_2_eq_2)
  then show ?thesis using seed by (simp add: queue_column_def)
qed

text \<open>
  C9 (amended): when \<^verbatim>\<open>n_repeats\<close> is greater than 1, the base call that
  \<^verbatim>\<open>fill_hyper_q\<close> reaches for a sweep point queues that point \<^verbatim>\<open>n_repeats\<close> times;
  the repeats are equal copies of one configuration, which carries the search key built
  from the swept keys in order. (The queued entries do not differ in any option.)
\<close>

theorem c9_repeats:
  assumes "ensure_ok hyps"
    and "try_key hyps ''n_repeats'' (PInt 1) = PInt n" and "1 < n"
    and "''search_keys'' \<notin> set keys" and "\<forall>k \<in> set keys. hyps k \<noteq> None"
  shows "\<exists>h'. fill_hyper_q ext cp hyps hyp_ranges keys q (length keys)
                  = Inr (h', q @ replicate (nat n) h')
           \<and> h' ''search_keys'' = Some (PStr (search_key_string ext cp h' keys))"
proof -
  from assms(3) have pos: "0 < n" by simp
  from base_call_repeats [OF assms(1,2) pos assms(4,5), of ext cp q]
  obtain h1 h' where h': "h' = h1(''search_keys'' \<mapsto> PStr (search_key_string ext cp h1 keys))"
    and res: "base_call ext cp keys hyps q = Inr (h', q @ replicate (nat n) h')"
    by auto
  have kv: "key_value ext cp h' k = key_value ext cp h1 k" if "k \<in> set keys" for k
    using that assms(4) by (auto simp: key_value_def h')
  have "search_key_string ext cp h' keys = search_key_string ext cp h1 keys"
    by (simp add: search_key_string_def kv cong: map_cong)
  then have "h' ''search_keys'' = Some (PStr (search_key_string ext cp h' keys))"
    by (simp add: h')
  moreover have "fill_hyper_q ext cp hyps hyp_ranges keys q (length keys)
                   = base_call ext cp keys hyps q"
    by (simp add: fill_hyper_q.simps [of _ _ _ _ _ _ "length keys"])
  ultimately show ?thesis using res by auto
qed

theorem c9_repeats_witness:
  "ensure_ok seeded_point
   \<and> try_key seeded_point ''n_repeats'' (PInt 1) = PInt 2
   \<and> (1::int) < 2
   \<and> ''search_keys'' \<notin> set [''a'']
   \<and> seeded_point ''a'' \<noteq> None
   \<and> length (queue_of (fill_hyper_q repr_example ckpt_example seeded_point
                          [(''a'', [PInt 1])] [''a''] [] (length [''a'']))) = 2"
proof -
  have ok: "ensure_ok seeded_point"
    by (simp add: ensure_ok_def seeded_point_def seeded_example_def)
  have rep: "try_key seeded_point ''n_repeats'' (PInt 1) = PInt 2"
    by (simp add: try_key_def seeded_point_def seeded_example_def)
  have two: "(1::int) < 2" by simp
  have k1: "''search_keys'' \<notin> set [''a'']" by simp
  have k2: "\<forall>k \<in> set [''a'']. seeded_point k \<noteq> None"
    by (simp add: seeded_point_def)
  from c9_repeats [OF ok rep two k1 k2, of repr_example ckpt_example "[(''a'', [PInt 1])]" "[]"]
  have "length (queue_of (fill_hyper_q repr_example ckpt_example seeded_point
                            [(''a'', [PInt 1])] [''a''] [] (length [''a'']))) = 2"
    by (elim exE conjE) (simp add: queue_of_def)
  then show ?thesis using ok rep k2 by simp
qed

subsection \<open>The optimisation objects\<close>

text \<open>
  C6, as stated, fails on the code: a configuration whose scheduler name is none of
  the registered ones builds its objects without any error, and gets the no-op
  scheduler in place of the one it named.
\<close>

theorem c6_counterexample:
  "get_optim_objs example_env example_model cosine_example
     = Inr (cosine_example(''scheduler'' \<mapsto> PStr ''NullScheduler''), cosine_objs)"
  by (simp add: get_optim_objs_def make_scheduler_def build_optimizer_def get_item_def
                try_key_def loss_kwargs_def cosine_example_def cosine_objs_def example_env_def
                example_globals_def keyword_class_def checked_adam_def)

text \<open>
  C6 (amended): building the optimisation objects fails with a \<^verbatim>\<open>KeyError\<close> when the
  configured loss name is not bound in the module namespace. A name that is bound is
  called as the loss constructor, whatever it is bound to, and an exception of that
  call is the outcome. A scheduler name other than \<^verbatim>\<open>ReduceLROnPlateau\<close> and
  \<^verbatim>\<open>MultiStepLR\<close> is no failure: when the loss and the optimiser have been built and
  \<^verbatim>\<open>NullScheduler()\<close> returns, the call returns that no-op scheduler and overwrites
  the configured scheduler name with \<^verbatim>\<open>NullScheduler\<close>.
\<close>

theorem c6_get_optim_objs:
  "(hyps ''lossfxn'' = Some (PStr name) \<and> globals N name = None
      \<longrightarrow> get_optim_objs N net hyps = Inl (KeyError (PStr name)))
   \<and> (hyps ''lossfxn'' = Some (PStr name) \<and> globals N name = Some ctor
        \<and> ctor [] (loss_kwargs hyps) = Inl e
      \<longrightarrow> get_optim_objs N net hyps = Inl e)
   \<and> (hyps ''lossfxn'' = Some (PStr name) \<and> globals N name = Some ctor
        \<and> ctor [] (loss_kwargs hyps) = Inr loss
        \<and> hyps ''lr'' = Some rate \<and> hyps ''l2'' = Some decay
        \<and> build_optimizer N net rate decay = Inr opt
        \<and> hyps ''scheduler'' = Some s
        \<and> s \<noteq> PStr ''ReduceLROnPlateau'' \<and> s \<noteq> PStr ''MultiStepLR''
        \<and> globals N ''NullScheduler'' = Some null \<and> null [] [] = Inr sched
      \<longrightarrow> get_optim_objs N net hyps
            = Inr (hyps(''scheduler'' \<mapsto> PStr ''NullScheduler''),
                   \<lparr>optimizer = opt, scheduler = sched, loss_fn = loss\<rparr>))"
  by (simp add: get_optim_objs_def make_scheduler_def get_item_def try_key_def)

theorem c6_get_optim_objs_witness:
  "huber_example ''lossfxn'' = Some (PStr ''HuberLoss'')
   \<and> globals example_env ''HuberLoss'' = None
   \<and> get_optim_objs example_env example_model huber_example = Inl (KeyError (PStr ''HuberLoss''))
   \<and> os_example ''lossfxn'' = Some (PStr ''os'')
   \<and> globals example_env ''os'' = Some not_callable
   \<and> not_callable [] (loss_kwargs os_example) = Inl TypeError
   \<and> get_optim_objs example_env example_model os_example = Inl TypeError
   \<and> cosine_example ''lossfxn'' = Some (PStr ''MSELoss'')
   \<and> cosine_example ''scheduler'' = Some (PStr ''CosineAnnealingLR'')
   \<and> get_optim_objs example_env example_model cosine_example
       = Inr (cosine_example(''scheduler'' \<mapsto> PStr ''NullScheduler''), cosine_objs)"
proof -
  have h: "huber_example ''lossfxn'' = Some (PStr ''HuberLoss'')"
    "globals example_env ''HuberLoss'' = None"
    by (simp_all add: huber_example_def example_env_def example_globals_def)
  have o: "os_example ''lossfxn'' = Some (PStr ''os'')"
    "globals example_env ''os'' = Some not_callable"
    "not_callable [] (loss_kwargs os_example) = Inl TypeError"
    by (simp_all add: os_example_def example_env_def example_globals_def not_callable_def)
  have c: "cosine_example ''lossfxn'' = Some (PStr ''MSELoss'')"
    "globals example_env ''MSELoss''
       = Some (keyword_class ''MSELoss'' [''size_average'', ''reduce'', ''reduction''])"
    "keyword_class ''MSELoss'' [''size_average'', ''reduce'', ''reduction'']
         [] (loss_kwargs cosine_example)
       = Inr (loss_fn cosine_objs)"
    "cosine_example ''lr'' = Some (PFloat 0.001)" "cosine_example ''l2'' = Some (PFloat 0.01)"
    "build_optimizer example_env example_model (PFloat 0.001) (PFloat 0.01)
       = Inr (optimizer cosine_objs)"
    "cosine_example ''scheduler'' = Some (PStr ''CosineAnnealingLR'')"
    "globals example_env ''NullScheduler'' = Some (keyword_class ''NullScheduler'' [])"
    "keyword_class ''NullScheduler'' [] [] [] = Inr (scheduler cosine_objs)"
    by (simp_all add: cosine_example_def cosine_objs_def example_env_def example_globals_def
          keyword_class_def loss_kwargs_def build_optimizer_def checked_adam_def)
  have objs: "\<lparr>optimizer = optimizer cosine_objs, scheduler = scheduler cosine_objs,
               loss_fn = loss_fn cosine_objs\<rparr> = cosine_objs"
    by simp
  from c6_get_optim_objs [where hyps = huber_example and name = "''HuberLoss''"
                            and N = example_env and net = example_model] h
  have "get_optim_objs example_env example_model huber_example
          = Inl (KeyError (PStr ''HuberLoss''))"
    by blast
  moreover
  from c6_get_optim_objs [where hyps = os_example and name = "''os''" and N = example_env
                            and net = example_model and ctor = not_callable
                            and e = TypeError] o
  have "get_optim_objs example_env example_model os_example = Inl TypeError"
    by blast
  moreover
  from c6_get_optim_objs [where hyps = cosine_example and name = "''MSELoss''"
          and N = example_env and net = example_model
          and ctor = "keyword_class ''MSELoss'' [''size_average'', ''reduce'', ''reduction'']"
          and loss = "loss_fn cosine_objs" and rate = "PFloat 0.001" and decay = "PFloat 0.01"
          and opt = "optimizer cosine_objs" and s = "PStr ''CosineAnnealingLR''"
          and null = "keyword_class ''NullScheduler'' []"
          and sched = "scheduler cosine_objs"] c objs
  have "get_optim_objs example_env example_model cosine_example
          = Inr (cosine_example(''scheduler'' \<mapsto> PStr ''NullScheduler''), cosine_objs)"
    by simp
  ultimately show ?thesis using h o c by simp
qed

subsection \<open>The run entry and the sweep loop\<close>

text \<open>
  C8: if the training method selected for a job (the ordinary or the retinotopic one)
  raises \<^verbatim>\<open>IndexError\<close>, \<^verbatim>\<open>train\<close> prints the fault and returns \<^verbatim>\<open>None\<close>; the sweep loop
  then writes nothing to the results file, prints the skip with the job's dataset and
  cells, and goes on with the rest of the queue. (The skip message reads
  \<^verbatim>\<open>hyps['dataset']\<close> and \<^verbatim>\<open>hyps['cells']\<close>, which a job has.)
\<close>

theorem c8_index_fault_skipped:
  assumes "(if truthy (try_key hyps ''retinotopic'' (PBool False)) then rloop else tloop) hyps self
             = (Inl IndexError, hyps', self')"
    and "hyps' ''dataset'' = Some d" and "hyps' ''cells'' = Some c"
  shows "train tloop rloop hyps self out = (Inr None, hyps', self', out @ [CaughtIndexError])
       \<and> run_queue tloop rloop (hyps # q) self io
           = run_queue tloop rloop q self'
               (io\<lparr>stdout := stdout io @ [SearchesLeft (Suc (length q)), CaughtIndexError,
                                           Skipped d c]\<rparr>)"
  using assms by (simp add: train_def get_item_def)

theorem c8_index_fault_skipped_witness:
  "(if truthy (try_key job_example ''retinotopic'' (PBool False))
    then faulty_loop else faulty_loop) job_example trainer_example
     = (Inl IndexError, job_example, trainer_example)
   \<and> job_example ''dataset'' = Some (PStr ''15-10-07'')
   \<and> job_example ''cells'' = Some (PStr ''all'')
   \<and> run_queue faulty_loop faulty_loop [job_example] trainer_example empty_io
       = Inr \<lparr>stdout = [SearchesLeft 1, CaughtIndexError, Skipped (PStr ''15-10-07'') (PStr ''all'')],
              results_file = []\<rparr>"
proof -
  have a: "(if truthy (try_key job_example ''retinotopic'' (PBool False))
            then faulty_loop else faulty_loop) job_example trainer_example
             = (Inl IndexError, job_example, trainer_example)"
    by (simp add: faulty_loop_def)
  have d: "job_example ''dataset'' = Some (PStr ''15-10-07'')"
    and c: "job_example ''cells'' = Some (PStr ''all'')"
    by (simp_all add: job_example_def)
  from c8_index_fault_skipped [where hyps = job_example and rloop = faulty_loop
        and tloop = faulty_loop and self = trainer_example and hyps' = job_example
        and self' = trainer_example and q = "[]" and io = empty_io and out = "[]",
        OF a d c]
  have step: "run_queue faulty_loop faulty_loop [job_example] trainer_example empty_io
       = run_queue faulty_loop faulty_loop [] trainer_example
           (empty_io\<lparr>stdout := stdout empty_io @ [SearchesLeft (Suc (length ([]::hyps list))), CaughtIndexError,
                                                  Skipped (PStr ''15-10-07'') (PStr ''all'')]\<rparr>)"
    by (rule conjunct2)
  have "run_queue faulty_loop faulty_loop [job_example] trainer_example empty_io
       = Inr \<lparr>stdout = [SearchesLeft 1, CaughtIndexError, Skipped (PStr ''15-10-07'') (PStr ''all'')],
              results_file = []\<rparr>"
    unfolding step by (simp add: empty_io_def)
  then show ?thesis using a d c by simp
qed

text \<open>
  C10: a retinotopic run with the \<^verbatim>\<open>prune\<close> option true whose epoch loop completes
  raises \<^verbatim>\<open>NameError\<close> for \<^verbatim>\<open>zero_dict\<close> in its final save; \<^verbatim>\<open>train\<close> does not catch
  it, so the run fails and returns no result.
\<close>

theorem c10_retinotopic_prune_fails:
  assumes "truthy (try_key hyps ''retinotopic'' (PBool False))"
    and "epochs hyps self = (Inr m, hyps', self')"
    and "hyps' ''save_folder'' = Some sf"
    and "hyps' ''prune'' = Some p" and "truthy p"
  shows "retinotopic_loop epochs hyps self = (Inl (NameError ''zero_dict''), hyps', self')
       \<and> train tloop (retinotopic_loop epochs) hyps self out
           = (Inl (NameError ''zero_dict''), hyps', self', out)"
  using assms by (simp add: retinotopic_loop_def train_def get_item_def)

theorem c10_retinotopic_prune_fails_witness:
  "truthy (try_key retino_prune_example ''retinotopic'' (PBool False))
   \<and> retino_prune_example ''prune'' = Some (PBool True) \<and> truthy (PBool True)
   \<and> train faulty_loop (retinotopic_loop finished_epochs) retino_prune_example trainer_example []
       = (Inl (NameError ''zero_dict''), retino_prune_example, trainer_example, [])"
proof -
  have r: "truthy (try_key retino_prune_example ''retinotopic'' (PBool False))"
    by (simp add: try_key_def retino_prune_example_def)
  have e: "finished_epochs retino_prune_example trainer_example
             = (Inr \<lparr>m_avg_loss = Fin 1, m_val_acc = Fin 0.5, m_val_loss = Fin 1,
                     m_avg_pearson = Fin 0\<rparr>, retino_prune_example, trainer_example)"
    by (simp add: finished_epochs_def)
  have sf: "retino_prune_example ''save_folder'' = Some (PStr ''run_0'')"
    and p: "retino_prune_example ''prune'' = Some (PBool True)"
    by (simp_all add: retino_prune_example_def)
  have t: "truthy (PBool True)" by simp
  from c10_retinotopic_prune_fails [where hyps = retino_prune_example
        and epochs = finished_epochs and self = trainer_example
        and hyps' = retino_prune_example and self' = trainer_example
        and tloop = faulty_loop and out = "[]", OF r e sf p t]
  show ?thesis using r p by simp
qed

subsection \<open>The epoch loop\<close>

text \<open>
  The batch loop adds one \<open>TrainBatch\<close> call per batch it processes and leaves with
  the loss accumulated over these batches.
\<close>

lemma train_batches_frame:
  "\<exists>w'. train_batches zc zd test ep bs i (l, w, tr)
         = (fst (batch_loop test (map fst bs) i l), w',
            tr @ map (TrainBatch ep) [i..<i + snd (batch_loop test (map fst bs) i l)])"
proof (induction bs arbitrary: i l w tr)
  case Nil
  show ?case by simp
next
  case (Cons b bs)
  define l1 where "l1 = fadd l (fst b)"
  define w1 where "w1 = zc zd (snd b w)"
  show ?case
  proof (cases "(isnan l1 \<or> isinf l1) \<or> (test \<and> 5 \<le> i)")
    case True
    then have "train_batches zc zd test ep (b # bs) i (l, w, tr) = (l1, w1, tr @ [TrainBatch ep i])"
      by (auto simp: w1_def l1_def Let_def)
    moreover from True have "batch_loop test (map fst (b # bs)) i l = (l1, 1)"
      by (auto simp: l1_def Let_def)
    ultimately show ?thesis by simp
  next
    case False
    from Cons.IH [of "Suc i" l1 w1 "tr @ [TrainBatch ep i]"] obtain w' where
      H: "train_batches zc zd test ep bs (Suc i) (l1, w1, tr @ [TrainBatch ep i])
            = (fst (batch_loop test (map fst bs) (Suc i) l1), w',
               (tr @ [TrainBatch ep i]) @ map (TrainBatch ep)
                             [Suc i..<Suc i + snd (batch_loop test (map fst bs) (Suc i) l1)])"
      by blast
    from False have tb: "train_batches zc zd test ep (b # bs) i (l, w, tr)
                           = train_batches zc zd test ep bs (Suc i) (l1, w1, tr @ [TrainBatch ep i])"
      by (auto simp: w1_def l1_def Let_def)
    from False have bl: "batch_loop test (map fst (b # bs)) i l
        = (fst (batch_loop test (map fst bs) (Suc i) l1),
           Suc (snd (batch_loop test (map fst bs) (Suc i) l1)))"
      by (auto simp: l1_def Let_def split: prod.splits)
    show ?thesis
      unfolding tb H bl
      by (rule exI [of _ w']) (simp add: upt_conv_Cons)
  qed
qed

text \<open>
  If the accumulated loss is finite after each of the first \<open>k\<close> batches and not finite
  after batch \<open>k\<close> (counted from 0), the batch loop processes the batches 0 to \<open>k\<close> and
  no other. In a test run the loop leaves after batch 5 in any case.
\<close>

lemma batch_loop_nonfinite:
  assumes "k < length xs"
    and "nonfinite (foldl fadd l (take (Suc k) xs))"
    and "\<forall>j. 0 < j \<and> j \<le> k \<longrightarrow> \<not> nonfinite (foldl fadd l (take j xs))"
    and "test \<longrightarrow> i + k \<le> 5"
  shows "batch_loop test xs i l = (foldl fadd l (take (Suc k) xs), Suc k)"
  using assms
proof (induction xs arbitrary: i l k)
  case Nil
  then show ?case by simp
next
  case (Cons x xs)
  show ?case
  proof (cases k)
    case 0
    with Cons.prems(2) show ?thesis by (simp add: nonfinite_def)
  next
    case (Suc k')
    from Cons.prems(3) [rule_format, of 1] Suc have fin: "\<not> nonfinite (fadd l x)" by simp
    from Cons.prems(4) Suc have nt: "\<not> (test \<and> 5 \<le> i)" by auto
    have "batch_loop test xs (Suc i) (fadd l x)
            = (foldl fadd (fadd l x) (take (Suc k') xs), Suc k')"
    proof (rule Cons.IH)
      show "k' < length xs" using Cons.prems(1) Suc by simp
      show "nonfinite (foldl fadd (fadd l x) (take (Suc k') xs))"
        using Cons.prems(2) Suc by simp
      show "\<forall>j. 0 < j \<and> j \<le> k' \<longrightarrow> \<not> nonfinite (foldl fadd (fadd l x) (take j xs))"
      proof (intro allI impI)
        fix j assume "0 < j \<and> j \<le> k'"
        then have "0 < Suc j \<and> Suc j \<le> k" using Suc by simp
        with Cons.prems(3) have "\<not> nonfinite (foldl fadd l (take (Suc j) (x # xs)))" by blast
        then show "\<not> nonfinite (foldl fadd (fadd l x) (take j xs))" by simp
      qed
      show "test \<longrightarrow> Suc i + k' \<le> 5" using Cons.prems(4) Suc by simp
    qed
    with fin nt Suc show ?thesis by (simp add: nonfinite_def Let_def)
  qed
qed

lemma fdiv_nonfinite: "nonfinite l \<Longrightarrow> n \<noteq> 0 \<Longrightarrow> \<exists>a. fdiv l n = Inr a \<and> nonfinite a"
  by (cases l) (auto simp: fdiv_def nonfinite_def)

text \<open>The phases of an epoch, one at a time.\<close>

lemma train_phase_Inr:
  assumes "train_phase zc h e s = Inr s1"
  shows "\<exists>w tr. s1 = s\<lparr>heap := (heap s)(model s := w), trace := tr, avg_loss := avg_loss s1\<rparr>
           \<and> fdiv (fst (batch_loop (exp_name h = ''test'') (map fst (e_batches e)) 0 (Fin 0)))
                  (e_n_loops e) = Inr (avg_loss s1)"
proof -
  from train_batches_frame [of zc "zero_dict s" "exp_name h = ''test''" "epoch s" "e_batches e" 0
                               "Fin 0" "heap s (model s)" "trace s"]
  obtain w' tr' where
    tb: "train_batches zc (zero_dict s) (exp_name h = ''test'') (epoch s) (e_batches e) 0
           (Fin 0, heap s (model s), trace s)
         = (fst (batch_loop (exp_name h = ''test'') (map fst (e_batches e)) 0 (Fin 0)), w', tr')"
    by blast
  from assms show ?thesis
    unfolding train_phase_def tb
    by (auto split: sum.splits if_splits intro!: exI)
qed

lemma validation_phase_Inr:
  assumes "validation_phase e s = Inr (stop, s2)"
  shows "stop = fst (stop_early (monitor s) (e_val_acc e)) \<and> avg_loss s2 = avg_loss s"
  using assms
  by (auto simp: validation_phase_def Let_def split: sum.splits prod.splits)

lemma apply_pruning_frame:
  "avg_loss (apply_pruning zc h e pd s) = avg_loss s"
  "epoch (apply_pruning zc h e pd s) = epoch s"
  "trace (apply_pruning zc h e pd s)
     = trace s @ PruneChannels (epoch s) # (if reset_sd h then [LoadStateDict (epoch s)] else [])"
  by (simp_all add: apply_pruning_def retrain_pruned_def apply_mask_def reset_rate_def
                    restore_state_def after_prune_channels_def split: prod.splits)

lemma fresh_prune_dict_frame:
  assumes "fresh_prune_dict h s = Inr s1"
  shows "avg_loss s1 = avg_loss s \<and> epoch s1 = epoch s \<and> trace s1 = trace s"
  using assms by (auto simp: fresh_prune_dict_def split: if_splits option.splits)

lemma prune_phase_Inr:
  assumes "prune_phase zc h e s = Inr s3"
  shows "avg_loss s3 = avg_loss s"
proof (cases "prune_intvl h \<noteq> 0 \<and> prune_due h s")
  case False
  with assms show ?thesis by (auto simp: prune_phase_def split: if_splits)
next
  case True
  with assms obtain s1 pd where s1: "fresh_prune_dict h s = Inr s1"
    and s3: "s3 = apply_pruning zc h e pd (s1\<lparr>cur_lr := Some (lr s1)\<rparr>)"
    by (auto simp: prune_phase_def Let_def split: sum.splits option.splits)
  from fresh_prune_dict_frame [OF s1] show ?thesis
    by (simp add: s3 apply_pruning_frame)
qed

lemma prune_phase_safe:
  assumes "prune_safe h s"
  shows "\<exists>s3. prune_phase zc h e s = Inr s3 \<and> trace s3 = trace s @ prune_events h s
            \<and> avg_loss s3 = avg_loss s \<and> epoch s3 = epoch s"
proof (cases "prune_due h s")
  case False
  with assms show ?thesis
    by (simp add: prune_phase_def prune_safe_def prune_events_def)
next
  case True
  from assms have nz: "prune_intvl h \<noteq> 0" by (simp add: prune_safe_def)
  have "\<exists>s1 pd. fresh_prune_dict h s = Inr s1 \<and> prune_dict (s1\<lparr>cur_lr := Some (lr s1)\<rparr>) = Some pd"
  proof (cases "epoch s \<le> n_epochs s + prune_intvl h")
    case fresh: True
    with assms True obtain c where "cur_lr s = Some c"
      by (auto simp: prune_safe_def)
    with fresh show ?thesis by (simp add: fresh_prune_dict_def)
  next
    case old: False
    with assms True obtain pd where "prune_dict s = Some pd"
      by (auto simp: prune_safe_def)
    with old show ?thesis by (simp add: fresh_prune_dict_def)
  qed
  then obtain s1 pd where s1: "fresh_prune_dict h s = Inr s1"
    and pd: "prune_dict (s1\<lparr>cur_lr := Some (lr s1)\<rparr>) = Some pd"
    by blast
  have "prune_phase zc h e s = Inr (apply_pruning zc h e pd (s1\<lparr>cur_lr := Some (lr s1)\<rparr>))"
    using nz True s1 pd by (simp add: prune_phase_def Let_def)
  moreover from fresh_prune_dict_frame [OF s1] True
  have "trace (apply_pruning zc h e pd (s1\<lparr>cur_lr := Some (lr s1)\<rparr>)) = trace s @ prune_events h s"
    "avg_loss (apply_pruning zc h e pd (s1\<lparr>cur_lr := Some (lr s1)\<rparr>)) = avg_loss s"
    "epoch (apply_pruning zc h e pd (s1\<lparr>cur_lr := Some (lr s1)\<rparr>)) = epoch s"
    by (simp_all add: apply_pruning_frame prune_events_def)
  ultimately show ?thesis by simp
qed

lemma epoch_body_Inr:
  assumes "epoch_body zc h e s = Inr (brk, s')"
  shows "\<exists>s1 stop s2 s3.
           train_phase zc h e (s\<lparr>epoch := epoch s + 1,
              stop_training := (n_epochs s \<le> epoch s + 1 \<and> \<not> hyps_prune s)\<rparr>) = Inr s1
         \<and> validation_phase e s1 = Inr (stop, s2)
         \<and> prune_phase zc h e s2 = Inr s3
         \<and> s' = save_checkpoint s3
         \<and> brk = (isnan (avg_loss s') \<or> isinf (avg_loss s') \<or> stop)"
  using assms
  by (simp add: epoch_body_def split: sum.splits prod.splits) (auto simp: Let_def)

lemma save_checkpoint_frame:
  "avg_loss (save_checkpoint s) = avg_loss s"
  "epoch (save_checkpoint s) = epoch s"
  "trace (save_checkpoint s)
     = trace s @ [Checkpoint \<lparr>ck_epoch = epoch s, ck_loss = avg_loss s,
                               ck_val_loss = val_loss s, ck_val_acc = val_acc s,
                               ck_test_pearson = avg_pearson s,
                               ck_zero_dict = zero_dict s, ck_cur_lr = lr s,
                               ck_weights = heap s (state_dict (model s))\<rparr>]"
  by (simp_all add: save_checkpoint_def)

text \<open>
  C5, as stated, fails on the code: in a run whose validation loss is NaN in every
  epoch (training loss finite, early stopping off, two epochs configured) the loop is
  not stopped after the first epoch; it goes on to the epochs 1 and 2.
\<close>

theorem c5_counterexample:
  "map ck_val_loss
       (checkpoints_of (train_fold mask_example two_epochs nan_val_env no_early_stopping 0))
     = [NaN, NaN, NaN]
   \<and> map ck_epoch
       (checkpoints_of (train_fold mask_example two_epochs nan_val_env no_early_stopping 0))
     = [0, 1, 2]"
  by (simp add: train_fold_def init_hyps_def init_state_def checkpoints_of_def
        epoch_loop.simps epoch_body_def train_phase_def validation_phase_def prune_phase_def
        prune_due_def save_checkpoint_def state_dict_def fdiv_def stop_early_def Let_def
        two_epochs_def nan_val_env_def plain_epoch_def no_early_stopping_def mask_example_def)

text \<open>
  C5 (amended): at the end of an epoch that raised nothing, the loop breaks exactly
  when the epoch's average training loss (the loss accumulated by the batch loop,
  divided by \<^verbatim>\<open>n_loops\<close>) is NaN or infinite, or the early-stopping monitor has
  signalled stop for the epoch's validation accuracy. The validation loss is not
  consulted. When the loop does not break it returns to its \<^verbatim>\<open>while\<close> test: it ends
  there if \<^verbatim>\<open>stop_training\<close> was set during the epoch, and runs the next epoch
  otherwise.
\<close>

theorem c5_break_condition:
  assumes body: "epoch_body zc h (env (epoch s + 1)) s = Inr (brk, s')"
    and running: "\<not> stop_training s"
  shows "(brk \<longleftrightarrow> isnan (avg_loss s') \<or> isinf (avg_loss s')
                  \<or> fst (stop_early (monitor s) (e_val_acc (env (epoch s + 1)))))
       \<and> fdiv (fst (batch_loop (exp_name h = ''test'')
                       (map fst (e_batches (env (epoch s + 1)))) 0 (Fin 0)))
              (e_n_loops (env (epoch s + 1))) = Inr (avg_loss s')
       \<and> (brk \<longrightarrow> epoch_loop zc h env s = Some (Inr s'))
       \<and> (\<not> brk \<and> stop_training s' \<longrightarrow> epoch_loop zc h env s = Some (Inr s'))
       \<and> (\<not> brk \<and> \<not> stop_training s' \<longrightarrow>
            epoch_loop zc h env s
              = (case epoch_body zc h (env (epoch s' + 1)) s' of
                   Inl err \<Rightarrow> Some (Inl err)
                 | Inr (brk', s'') \<Rightarrow> if brk' then Some (Inr s'') else epoch_loop zc h env s''))"
proof -
  define e where "e = env (epoch s + 1)"
  define s0 where "s0 = s\<lparr>epoch := epoch s + 1,
                          stop_training := (n_epochs s \<le> epoch s + 1 \<and> \<not> hyps_prune s)\<rparr>"
  from epoch_body_Inr [OF body] obtain s1 stop s2 s3 where
    tp: "train_phase zc h e s0 = Inr s1"
    and vp: "validation_phase e s1 = Inr (stop, s2)"
    and pp: "prune_phase zc h e s2 = Inr s3"
    and s': "s' = save_checkpoint s3"
    and brk: "brk = (isnan (avg_loss s') \<or> isinf (avg_loss s') \<or> stop)"
    unfolding e_def s0_def by blast
  from train_phase_Inr [OF tp] obtain w tr where
    s1: "s1 = s0\<lparr>heap := (heap s0)(model s0 := w), trace := tr, avg_loss := avg_loss s1\<rparr>"
    and avg: "fdiv (fst (batch_loop (exp_name h = ''test'') (map fst (e_batches e)) 0 (Fin 0)))
                   (e_n_loops e) = Inr (avg_loss s1)"
    by blast
  have "monitor s1 = monitor s0" by (subst s1) simp
  then have mon: "monitor s1 = monitor s" by (simp add: s0_def)
  from validation_phase_Inr [OF vp] mon
  have stop: "stop = fst (stop_early (monitor s) (e_val_acc e))" and a2: "avg_loss s2 = avg_loss s1"
    by simp_all
  from prune_phase_Inr [OF pp] have a3: "avg_loss s3 = avg_loss s2" .
  have a': "avg_loss s' = avg_loss s1"
    by (simp add: s' save_checkpoint_frame a3 a2)
  have loop: "epoch_loop zc h env s = (if brk then Some (Inr s') else epoch_loop zc h env s')"
    using body running by (subst epoch_loop.simps) simp
  have next_epoch: "epoch_loop zc h env s'
      = (case epoch_body zc h (env (epoch s' + 1)) s' of
           Inl err \<Rightarrow> Some (Inl err)
         | Inr (brk', s'') \<Rightarrow> if brk' then Some (Inr s'') else epoch_loop zc h env s'')"
    if "\<not> stop_training s'"
    using that by (subst epoch_loop.simps) simp
  have ended: "epoch_loop zc h env s' = Some (Inr s')" if "stop_training s'"
    using that by (subst epoch_loop.simps) simp
  show ?thesis
    using brk stop avg a' loop next_epoch ended
    by (simp add: e_def)
qed

theorem c5_break_condition_witness:
  "\<not> stop_training (init_state two_epochs no_early_stopping (0::int))
   \<and> (\<exists>s'. epoch_body mask_example two_epochs
               (nan_val_env (epoch (init_state two_epochs no_early_stopping (0::int)) + 1))
               (init_state two_epochs no_early_stopping 0) = Inr (False, s')
          \<and> val_loss s' = NaN \<and> avg_loss s' = Fin 1)"
proof -
  let ?s = "init_state two_epochs no_early_stopping (0::int)"
  have running: "\<not> stop_training ?s" by (simp add: init_state_def)
  have "\<exists>brk s'. epoch_body mask_example two_epochs (nan_val_env (epoch ?s + 1)) ?s = Inr (brk, s')
          \<and> val_loss s' = NaN \<and> avg_loss s' = Fin 1"
    by (auto simp: init_state_def epoch_body_def train_phase_def validation_phase_def
          prune_phase_def prune_due_def save_checkpoint_def state_dict_def fdiv_def
          stop_early_def Let_def two_epochs_def nan_val_env_def plain_epoch_def
          no_early_stopping_def mask_example_def)
  then obtain brk s' where
    body: "epoch_body mask_example two_epochs (nan_val_env (epoch ?s + 1)) ?s = Inr (brk, s')"
    and vl: "val_loss s' = NaN" and al: "avg_loss s' = Fin 1"
    by blast
  from c5_break_condition [where env = nan_val_env and s = "?s" and zc = mask_example
        and h = two_epochs and brk = brk and s' = s', OF body running] al
  have "\<not> brk"
    by (simp add: init_state_def stop_early_def no_early_stopping_def)
  with body vl al running show ?thesis by auto
qed

lemma epoch_body_steps:
  assumes "train_phase zc h e (s\<lparr>epoch := epoch s + 1,
              stop_training := (n_epochs s \<le> epoch s + 1 \<and> \<not> hyps_prune s)\<rparr>) = Inr s1"
    and "validation_phase e s1 = Inr (stop, s2)"
    and "prune_phase zc h e s2 = Inr s3"
  shows "epoch_body zc h e s
           = Inr (isnan (avg_loss (save_checkpoint s3)) \<or> isinf (avg_loss (save_checkpoint s3))
                    \<or> stop, save_checkpoint s3)"
  using assms by (simp add: epoch_body_def Let_def)

text \<open>
  C7: let the accumulated training loss of an epoch be finite after each of the first
  \<open>k\<close> batches and NaN or infinite after batch \<open>k\<close> (batches counted from 0; in a test
  run, \<open>k\<close> at most 5, the last batch a test run reaches). Then, provided the epoch
  raises nothing (\<^verbatim>\<open>n_loops\<close> and the validation loop count are not zero, and the
  pruning block finds the variables it reads), the epoch processes the batches 0 to
  \<open>k\<close> and no further batch, runs the validation, runs the pruning block if it is due,
  writes the checkpoint of this epoch, and breaks: the fold's loop ends with this epoch.
\<close>

theorem c7_nonfinite_batch:
  assumes k: "k < length (e_batches e)"
    and bad: "nonfinite (acc_loss (map fst (e_batches e)) (Suc k))"
    and good: "\<forall>j \<le> k. \<not> nonfinite (acc_loss (map fst (e_batches e)) j)"
    and test: "exp_name h = ''test'' \<longrightarrow> k \<le> 5"
    and n: "e_n_loops e \<noteq> 0" and vn: "e_val_n_loops e \<noteq> 0"
    and safe: "prune_safe h (s\<lparr>epoch := epoch s + 1\<rparr>)"
  shows "\<exists>s' ck. epoch_body zc h e s = Inr (True, s')
           \<and> trace s' = trace s @ map (TrainBatch (epoch s + 1)) [0..<Suc k]
                          @ [Validation (epoch s + 1)]
                          @ prune_events h (s\<lparr>epoch := epoch s + 1\<rparr>)
                          @ [Checkpoint ck]
           \<and> ck_epoch ck = epoch s + 1
           \<and> (\<not> stop_training s \<and> env (epoch s + 1) = e
                \<longrightarrow> epoch_loop zc h env s = Some (Inr s'))"
proof -
  define s0 where "s0 = s\<lparr>epoch := epoch s + 1,
                          stop_training := (n_epochs s \<le> epoch s + 1 \<and> \<not> hyps_prune s)\<rparr>"
  define ls where "ls = map fst (e_batches e)"
  define t where "t \<longleftrightarrow> exp_name h = ''test''"
  have bl: "batch_loop t ls 0 (Fin 0) = (acc_loss ls (Suc k), Suc k)"
    unfolding acc_loss_def
  proof (rule batch_loop_nonfinite)
    show "k < length ls" using k by (simp add: ls_def)
    show "nonfinite (foldl fadd (Fin 0) (take (Suc k) ls))"
      using bad by (simp add: ls_def acc_loss_def)
    show "\<forall>j. 0 < j \<and> j \<le> k \<longrightarrow> \<not> nonfinite (foldl fadd (Fin 0) (take j ls))"
      using good by (simp add: ls_def acc_loss_def)
    show "t \<longrightarrow> 0 + k \<le> 5" using test by (simp add: t_def)
  qed
  from train_batches_frame [of zc "zero_dict s0" t "epoch s0" "e_batches e" 0 "Fin 0"
                               "heap s0 (model s0)" "trace s0"]
  obtain w' where tb: "train_batches zc (zero_dict s0) t (epoch s0) (e_batches e) 0
                          (Fin 0, heap s0 (model s0), trace s0)
                        = (acc_loss ls (Suc k), w',
                           trace s0 @ map (TrainBatch (epoch s0)) [0..<Suc k])"
    unfolding ls_def [symmetric] bl by auto
  from fdiv_nonfinite [OF _ n] bad obtain avg where
    fd: "fdiv (acc_loss ls (Suc k)) (e_n_loops e) = Inr avg" and navg: "nonfinite avg"
    unfolding ls_def by blast
  define s1 where "s1 = s0\<lparr>heap := (heap s0)(model s0 := w'),
                           trace := trace s0 @ map (TrainBatch (epoch s0)) [0..<Suc k],
                           avg_loss := avg\<rparr>"
  have ne: "e_batches e \<noteq> []" using k by auto
  have tp: "train_phase zc h e s0 = Inr s1"
    using ne by (simp add: train_phase_def t_def [symmetric] tb fd s1_def)
  obtain vl where vl: "fdiv (e_val_loss e) (e_val_n_loops e) = Inr vl"
    using vn by (simp add: fdiv_def)
  obtain stop self' where se: "stop_early (monitor s1) (e_val_acc e) = (stop, self')"
    by (cases "stop_early (monitor s1) (e_val_acc e)")
  define s2 where "s2 = s1\<lparr>trace := trace s1 @ [Validation (epoch s1)], val_loss := vl,
                           val_acc := e_val_acc e, monitor := self',
                           lr := e_sched_lr e (lr s1), avg_pearson := e_test_pearson e\<rparr>"
  have vp: "validation_phase e s1 = Inr (stop, s2)"
    by (simp add: validation_phase_def Let_def vl se s2_def)
  have due: "prune_due h s2 = prune_due h (s\<lparr>epoch := epoch s + 1\<rparr>)"
    by (simp add: prune_due_def s2_def s1_def s0_def)
  have "prune_safe h s2 = prune_safe h (s\<lparr>epoch := epoch s + 1\<rparr>)"
    unfolding prune_safe_def due by (simp add: s2_def s1_def s0_def)
  with safe have safe2: "prune_safe h s2" by simp
  have ev: "prune_events h s2 = prune_events h (s\<lparr>epoch := epoch s + 1\<rparr>)"
    unfolding prune_events_def due by (simp add: s2_def s1_def s0_def)
  from prune_phase_safe [OF safe2, of zc e] obtain s3 where
    pp: "prune_phase zc h e s2 = Inr s3"
    and tr3: "trace s3 = trace s2 @ prune_events h s2"
    and a3: "avg_loss s3 = avg_loss s2" and e3: "epoch s3 = epoch s2"
    by blast
  define s' where "s' = save_checkpoint s3"
  have avg': "avg_loss s' = avg"
    by (simp add: s'_def save_checkpoint_frame a3) (simp add: s2_def s1_def)
  have ep: "epoch s3 = epoch s + 1"
    by (simp add: e3) (simp add: s2_def s1_def s0_def)
  have body: "epoch_body zc h e s = Inr (True, s')"
    using epoch_body_steps [OF tp [unfolded s0_def] vp pp] navg avg'
    by (auto simp: s'_def nonfinite_def)
  define ck where "ck = \<lparr>ck_epoch = epoch s3, ck_loss = avg_loss s3,
                          ck_val_loss = val_loss s3, ck_val_acc = val_acc s3,
                          ck_test_pearson = avg_pearson s3,
                          ck_zero_dict = zero_dict s3, ck_cur_lr = lr s3,
                          ck_weights = heap s3 (state_dict (model s3))\<rparr>"
  have "trace s2 = trace s @ map (TrainBatch (epoch s + 1)) [0..<Suc k] @ [Validation (epoch s + 1)]"
    by (simp add: s2_def s1_def s0_def)
  then have tr: "trace s' = trace s @ map (TrainBatch (epoch s + 1)) [0..<Suc k]
                          @ [Validation (epoch s + 1)]
                          @ prune_events h (s\<lparr>epoch := epoch s + 1\<rparr>)
                          @ [Checkpoint ck]"
    by (simp add: s'_def save_checkpoint_frame tr3 ev ck_def)
  have cke: "ck_epoch ck = epoch s + 1" by (simp add: ck_def ep)
  have "epoch_loop zc h env s = Some (Inr s')" if "\<not> stop_training s" and "env (epoch s + 1) = e"
    using that body by (subst epoch_loop.simps) simp
  with body tr cke show ?thesis by blast
qed


theorem c7_nonfinite_batch_witness:
  "(1::nat) < length (e_batches nan_batch_epoch)
   \<and> nonfinite (acc_loss (map fst (e_batches nan_batch_epoch)) (Suc 1))
   \<and> e_n_loops nan_batch_epoch \<noteq> 0 \<and> e_val_n_loops nan_batch_epoch \<noteq> 0
   \<and> (\<exists>s' ck. train_fold mask_example two_epochs nan_batch_env no_early_stopping 0
                  = Some (Inr s')
              \<and> trace s' = [TrainBatch 0 0, TrainBatch 0 1, Validation 0, Checkpoint ck]
              \<and> ck_epoch ck = 0)"
proof -
  let ?s = "init_state two_epochs no_early_stopping (0::int)"
  have k: "(1::nat) < length (e_batches nan_batch_epoch)"
    by (simp add: nan_batch_epoch_def plain_epoch_def)
  have bad: "nonfinite (acc_loss (map fst (e_batches nan_batch_epoch)) (Suc 1))"
    by (simp add: nan_batch_epoch_def plain_epoch_def acc_loss_def nonfinite_def)
  have good: "\<forall>j \<le> 1. \<not> nonfinite (acc_loss (map fst (e_batches nan_batch_epoch)) j)"
  proof (intro allI impI)
    fix j :: nat assume "j \<le> 1"
    then have "j = 0 \<or> j = 1" by auto
    then show "\<not> nonfinite (acc_loss (map fst (e_batches nan_batch_epoch)) j)"
      by (auto simp: nan_batch_epoch_def plain_epoch_def acc_loss_def nonfinite_def)
  qed
  have test: "exp_name two_epochs = ''test'' \<longrightarrow> (1::nat) \<le> 5" by simp
  have n: "e_n_loops nan_batch_epoch \<noteq> 0" and vn: "e_val_n_loops nan_batch_epoch \<noteq> 0"
    by (simp_all add: nan_batch_epoch_def plain_epoch_def)
  have safe: "prune_safe two_epochs (?s\<lparr>epoch := epoch ?s + 1\<rparr>)"
    by (simp add: prune_safe_def prune_due_def init_state_def two_epochs_def)
  from c7_nonfinite_batch [where e = nan_batch_epoch and k = 1 and h = two_epochs and s = "?s"
        and zc = mask_example and env = nan_batch_env, OF k bad good test n vn safe]
  obtain s' ck where
    tr: "trace s' = trace ?s @ map (TrainBatch (epoch ?s + 1)) [0..<Suc 1]
                      @ [Validation (epoch ?s + 1)]
                      @ prune_events two_epochs (?s\<lparr>epoch := epoch ?s + 1\<rparr>)
                      @ [Checkpoint ck]"
    and ck: "ck_epoch ck = epoch ?s + 1"
    and loop: "\<not> stop_training ?s \<and> nan_batch_env (epoch ?s + 1) = nan_batch_epoch
                 \<longrightarrow> epoch_loop mask_example two_epochs nan_batch_env ?s = Some (Inr s')"
    by blast
  have "train_fold mask_example two_epochs nan_batch_env no_early_stopping 0 = Some (Inr s')"
    using loop by (simp add: train_fold_def init_hyps_def two_epochs_def [symmetric])
                  (simp add: init_state_def nan_batch_env_def two_epochs_def)
  moreover have "trace s' = [TrainBatch 0 0, TrainBatch 0 1, Validation 0, Checkpoint ck]"
    using tr by (simp add: init_state_def prune_events_def prune_due_def two_epochs_def upt_rec)
  moreover have "ck_epoch ck = 0"
    using ck by (simp add: init_state_def)
  ultimately show ?thesis using k bad n vn by blast
qed

text \<open>Runs without pruning, without early stopping and with finite losses.\<close>

lemma checkpoints_append: "checkpoints (xs @ ys) = checkpoints xs @ checkpoints ys"
  by (induction xs rule: checkpoints.induct) simp_all

lemma checkpoints_batches: "checkpoints (map (TrainBatch ep) js) = []"
  by (induction js) simp_all

lemma fdiv_finite: "\<not> nonfinite l \<Longrightarrow> n \<noteq> 0 \<Longrightarrow> \<exists>a. fdiv l n = Inr a \<and> \<not> nonfinite a"
  by (cases l) (auto simp: fdiv_def nonfinite_def)

lemma stop_early_off: "early_stopping t \<le> 0 \<Longrightarrow> stop_early t acc = (False, t)"
  by (simp add: stop_early_def)

lemma quiet_epoch_body:
  assumes q: "quiet_epoch h e" and np: "\<not> hyps_prune s" and pi: "prune_intvl h \<noteq> 0"
    and es: "early_stopping (monitor s) \<le> 0"
  shows "\<exists>s' ck. epoch_body zc h e s = Inr (False, s')
           \<and> epoch s' = epoch s + 1
           \<and> stop_training s' = (n_epochs s \<le> epoch s + 1)
           \<and> n_epochs s' = n_epochs s \<and> \<not> hyps_prune s' \<and> monitor s' = monitor s
           \<and> checkpoints (trace s') = checkpoints (trace s) @ [ck]
           \<and> ck_epoch ck = epoch s + 1"
proof -
  define s0 where "s0 = s\<lparr>epoch := epoch s + 1,
                          stop_training := (n_epochs s \<le> epoch s + 1 \<and> \<not> hyps_prune s)\<rparr>"
  define t where "t \<longleftrightarrow> exp_name h = ''test''"
  define l where "l = fst (batch_loop t (map fst (e_batches e)) 0 (Fin 0))"
  define m where "m = snd (batch_loop t (map fst (e_batches e)) 0 (Fin 0))"
  from q have ne: "e_batches e \<noteq> []" and n: "e_n_loops e \<noteq> 0" and vn: "e_val_n_loops e \<noteq> 0"
    and fin: "\<not> nonfinite l"
    by (simp_all add: quiet_epoch_def l_def t_def)
  from train_batches_frame [of zc "zero_dict s0" t "epoch s0" "e_batches e" 0 "Fin 0"
                               "heap s0 (model s0)" "trace s0"]
  obtain w' where tb: "train_batches zc (zero_dict s0) t (epoch s0) (e_batches e) 0
                          (Fin 0, heap s0 (model s0), trace s0)
                        = (l, w', trace s0 @ map (TrainBatch (epoch s0)) [0..<m])"
    unfolding l_def m_def by auto
  from fdiv_finite [OF fin n] obtain avg where
    fd: "fdiv l (e_n_loops e) = Inr avg" and favg: "\<not> nonfinite avg"
    by blast
  define s1 where "s1 = s0\<lparr>heap := (heap s0)(model s0 := w'),
                           trace := trace s0 @ map (TrainBatch (epoch s0)) [0..<m],
                           avg_loss := avg\<rparr>"
  have tp: "train_phase zc h e s0 = Inr s1"
    using ne by (simp add: train_phase_def t_def [symmetric] tb fd s1_def)
  obtain vl where vl: "fdiv (e_val_loss e) (e_val_n_loops e) = Inr vl"
    using vn by (simp add: fdiv_def)
  have mon: "monitor s1 = monitor s" by (simp add: s1_def s0_def)
  have se: "stop_early (monitor s1) (e_val_acc e) = (False, monitor s)"
    using es by (simp add: mon stop_early_off)
  define s2 where "s2 = s1\<lparr>trace := trace s1 @ [Validation (epoch s1)], val_loss := vl,
                           val_acc := e_val_acc e, monitor := monitor s,
                           lr := e_sched_lr e (lr s1), avg_pearson := e_test_pearson e\<rparr>"
  have vp: "validation_phase e s1 = Inr (False, s2)"
    by (simp add: validation_phase_def Let_def vl se s2_def)
  have "\<not> prune_due h s2"
    using np by (simp add: prune_due_def s2_def s1_def s0_def)
  then have pp: "prune_phase zc h e s2 = Inr s2"
    using pi by (simp add: prune_phase_def)
  define s' where "s' = save_checkpoint s2"
  have avg': "avg_loss s' = avg"
    by (simp add: s'_def save_checkpoint_frame) (simp add: s2_def s1_def)
  have body: "epoch_body zc h e s = Inr (False, s')"
    using epoch_body_steps [OF tp [unfolded s0_def] vp pp] favg avg'
    by (auto simp: s'_def nonfinite_def)
  define ck where "ck = \<lparr>ck_epoch = epoch s2, ck_loss = avg_loss s2,
                          ck_val_loss = val_loss s2, ck_val_acc = val_acc s2,
                          ck_test_pearson = avg_pearson s2,
                          ck_zero_dict = zero_dict s2, ck_cur_lr = lr s2,
                          ck_weights = heap s2 (state_dict (model s2))\<rparr>"
  have tr2: "trace s2 = trace s @ map (TrainBatch (epoch s + 1)) [0..<m] @ [Validation (epoch s + 1)]"
    by (simp add: s2_def s1_def s0_def)
  have "trace s' = trace s2 @ [Checkpoint ck]"
    by (simp add: s'_def save_checkpoint_frame ck_def)
  then have cks: "checkpoints (trace s') = checkpoints (trace s) @ [ck]"
    by (simp add: tr2 checkpoints_append checkpoints_batches)
  have "epoch s' = epoch s + 1" "stop_training s' = (n_epochs s \<le> epoch s + 1)"
    "n_epochs s' = n_epochs s" "\<not> hyps_prune s'" "monitor s' = monitor s"
    "ck_epoch ck = epoch s + 1"
    using np by (simp_all add: s'_def save_checkpoint_def ck_def s2_def s1_def s0_def)
  with body cks show ?thesis by blast
qed

lemma quiet_loop:
  assumes "nat (n_epochs s - (epoch s + 1)) = k"
    and "\<not> stop_training s" and "\<not> hyps_prune s" and "prune_intvl h \<noteq> 0"
    and "early_stopping (monitor s) \<le> 0"
    and "\<forall>ep. epoch s < ep \<and> ep \<le> max (epoch s + 1) (n_epochs s) \<longrightarrow> quiet_epoch h (env ep)"
  shows "\<exists>s'. epoch_loop zc h env s = Some (Inr s')
           \<and> map ck_epoch (checkpoints (trace s'))
               = map ck_epoch (checkpoints (trace s)) @ [epoch s + 1..max (epoch s + 1) (n_epochs s)]"
  using assms
proof (induction k arbitrary: s)
  case 0
  then have last: "n_epochs s \<le> epoch s + 1" by simp
  from 0 have "quiet_epoch h (env (epoch s + 1))" by simp
  from quiet_epoch_body [OF this "0.prems"(3,4,5), of zc] last obtain s' ck where
    body: "epoch_body zc h (env (epoch s + 1)) s = Inr (False, s')"
    and stop: "stop_training s'"
    and cks: "checkpoints (trace s') = checkpoints (trace s) @ [ck]"
    and ck: "ck_epoch ck = epoch s + 1"
    by auto
  have "epoch_loop zc h env s = epoch_loop zc h env s'"
    using body "0.prems"(2) by (subst epoch_loop.simps) simp
  also have "\<dots> = Some (Inr s')"
    using stop by (subst epoch_loop.simps) simp
  finally have "epoch_loop zc h env s = Some (Inr s')" .
  moreover have "max (epoch s + 1) (n_epochs s) = epoch s + 1" using last by simp
  ultimately show ?case using cks ck by simp
next
  case (Suc k)
  then have more: "epoch s + 1 < n_epochs s" by simp
  from Suc.prems have "quiet_epoch h (env (epoch s + 1))" by simp
  from quiet_epoch_body [OF this Suc.prems(3,4,5), of zc] more obtain s1 ck where
    body: "epoch_body zc h (env (epoch s + 1)) s = Inr (False, s1)"
    and ep1: "epoch s1 = epoch s + 1" and n1: "n_epochs s1 = n_epochs s"
    and go: "\<not> stop_training s1" and np1: "\<not> hyps_prune s1"
    and mon1: "monitor s1 = monitor s"
    and cks: "checkpoints (trace s1) = checkpoints (trace s) @ [ck]"
    and ck: "ck_epoch ck = epoch s + 1"
    by auto
  have "\<exists>s'. epoch_loop zc h env s1 = Some (Inr s')
           \<and> map ck_epoch (checkpoints (trace s'))
               = map ck_epoch (checkpoints (trace s1)) @ [epoch s1 + 1..max (epoch s1 + 1) (n_epochs s1)]"
  proof (rule Suc.IH)
    show "nat (n_epochs s1 - (epoch s1 + 1)) = k" using Suc.prems(1) by (simp add: ep1 n1)
    show "\<not> stop_training s1" by (rule go)
    show "\<not> hyps_prune s1" by (rule np1)
    show "prune_intvl h \<noteq> 0" by (rule Suc.prems(4))
    show "early_stopping (monitor s1) \<le> 0" using Suc.prems(5) by (simp add: mon1)
    show "\<forall>ep. epoch s1 < ep \<and> ep \<le> max (epoch s1 + 1) (n_epochs s1) \<longrightarrow> quiet_epoch h (env ep)"
      using Suc.prems(6) more by (auto simp: ep1 n1)
  qed
  then obtain s' where
    loop1: "epoch_loop zc h env s1 = Some (Inr s')"
    and cks': "map ck_epoch (checkpoints (trace s'))
               = map ck_epoch (checkpoints (trace s1)) @ [epoch s1 + 1..max (epoch s1 + 1) (n_epochs s1)]"
    by blast
  have "epoch_loop zc h env s = epoch_loop zc h env s1"
    using body Suc.prems(2) by (subst epoch_loop.simps) simp
  then have "epoch_loop zc h env s = Some (Inr s')" by (simp add: loop1)
  moreover have "[epoch s + 1..max (epoch s + 1) (n_epochs s)]
                   = (epoch s + 1) # [epoch s1 + 1..max (epoch s1 + 1) (n_epochs s1)]"
    using more by (simp add: ep1 n1 upto_rec1 max_def)
  ultimately show ?case using cks' cks ck by simp
qed

text \<open>
  C2 fails on the code. Without pruning and without early stopping, a run whose epochs
  0 to \<^verbatim>\<open>n_epochs\<close> have finite training losses executes all of these epochs, one more
  than \<^verbatim>\<open>n_epochs\<close>, and writes one checkpoint in each: the loop computes
  \<^verbatim>\<open>stop_training = epoch >= n_epochs\<close> at the top of the body and still runs the body
  for \<^verbatim>\<open>epoch = n_epochs\<close>. For \<^verbatim>\<open>n_epochs = 2\<close> these are three epochs and three
  checkpoints, the last with \<^verbatim>\<open>epoch = 2\<close>.
\<close>

theorem c2_one_epoch_more:
  assumes "\<not> prune h" and "prune_intvl h \<noteq> 0" and "exp_name h \<noteq> ''test''"
    and "early_stopping self \<le> 0" and "0 \<le> h_n_epochs h"
    and "\<forall>ep. 0 \<le> ep \<and> ep \<le> h_n_epochs h \<longrightarrow> quiet_epoch h (env ep)"
  shows "\<exists>s'. train_fold zc h env self w0 = Some (Inr s')
           \<and> map ck_epoch (checkpoints (trace s')) = [0..h_n_epochs h]
           \<and> length (checkpoints (trace s')) = nat (h_n_epochs h) + 1"
proof -
  define s where "s = init_state h self w0"
  have init: "epoch s = - 1" "n_epochs s = h_n_epochs h" "\<not> stop_training s" "\<not> hyps_prune s"
    "monitor s = self" "trace s = []"
    using assms(1) by (simp_all add: s_def init_state_def)
  have "\<exists>s'. epoch_loop zc h env s = Some (Inr s')
           \<and> map ck_epoch (checkpoints (trace s'))
               = map ck_epoch (checkpoints (trace s)) @ [epoch s + 1..max (epoch s + 1) (n_epochs s)]"
  proof (rule quiet_loop)
    show "nat (n_epochs s - (epoch s + 1)) = nat (h_n_epochs h)" by (simp add: init)
    show "\<not> stop_training s" "\<not> hyps_prune s" by (simp_all add: init)
    show "prune_intvl h \<noteq> 0" by (rule assms(2))
    show "early_stopping (monitor s) \<le> 0" using assms(4) by (simp add: init)
    show "\<forall>ep. epoch s < ep \<and> ep \<le> max (epoch s + 1) (n_epochs s) \<longrightarrow> quiet_epoch h (env ep)"
      using assms(5,6) by (auto simp: init)
  qed
  then obtain s' where loop: "epoch_loop zc h env s = Some (Inr s')"
    and cks: "map ck_epoch (checkpoints (trace s')) = [0..h_n_epochs h]"
    using assms(5) by (auto simp: init max_def)
  have "train_fold zc h env self w0 = Some (Inr s')"
    using loop assms(3) by (simp add: train_fold_def init_hyps_def s_def)
  moreover from cks have "length (map ck_epoch (checkpoints (trace s'))) = length [0..h_n_epochs h]"
    by simp
  then have "length (checkpoints (trace s')) = nat (h_n_epochs h) + 1"
    using assms(5) by simp
  ultimately show ?thesis using cks by blast
qed

theorem c2_one_epoch_more_witness:
  "\<not> prune two_epochs \<and> prune_intvl two_epochs \<noteq> 0 \<and> exp_name two_epochs \<noteq> ''test''
   \<and> early_stopping no_early_stopping \<le> 0 \<and> h_n_epochs two_epochs = 2
   \<and> quiet_epoch two_epochs plain_epoch
   \<and> (\<exists>s'. train_fold mask_example two_epochs plain_env no_early_stopping 0 = Some (Inr s')
          \<and> map ck_epoch (checkpoints (trace s')) = [0, 1, 2]
          \<and> length (checkpoints (trace s')) = 3)"
proof -
  have a: "\<not> prune two_epochs" "prune_intvl two_epochs \<noteq> 0" "exp_name two_epochs \<noteq> ''test''"
    "h_n_epochs two_epochs = 2" "0 \<le> h_n_epochs two_epochs"
    by (simp_all add: two_epochs_def)
  have es: "early_stopping no_early_stopping \<le> 0"
    by (simp add: no_early_stopping_def)
  have q: "quiet_epoch two_epochs plain_epoch"
    by (simp add: quiet_epoch_def plain_epoch_def two_epochs_def nonfinite_def)
  then have qs: "\<forall>ep. 0 \<le> ep \<and> ep \<le> h_n_epochs two_epochs \<longrightarrow> quiet_epoch two_epochs (plain_env ep)"
    by (simp add: plain_env_def)
  have upto: "[0..2::int] = [0, 1, 2]"
    by (simp add: upto_rec1)
  from c2_one_epoch_more [where h = two_epochs and self = no_early_stopping and env = plain_env
        and zc = mask_example and ?w0.0 = "0::int", OF a(1,2,3) es a(5) qs]
  have "\<exists>s'. train_fold mask_example two_epochs plain_env no_early_stopping 0 = Some (Inr s')
          \<and> map ck_epoch (checkpoints (trace s')) = [0, 1, 2]
          \<and> length (checkpoints (trace s')) = 3"
    by (simp add: a(4) upto)
  with a es q show ?thesis by simp
qed


text \<open>
  A roll-back through \<^verbatim>\<open>model.state_dict()\<close> restores nothing: the dict holds the
  parameter tensors themselves, so loading it copies the current values onto
  themselves.
\<close>

lemma load_own_state_dict: "load_state_dict m (state_dict m) H = H"
  by (simp add: load_state_dict_def state_dict_def)

text \<open>
  C4 fails on the code. In the run below (\<^verbatim>\<open>prune\<close> and \<^verbatim>\<open>reset_sd\<close> set,
  \<^verbatim>\<open>n_epochs = 1\<close>, \<^verbatim>\<open>prune_intvl = 2\<close>, initial parameters 0, every batch adds 1 to the
  parameters, the mask changes nothing) pruning completes in epoch 2, and the roll-back
  is called in that epoch. The run then trains for one more epoch, the fresh budget of
  \<^verbatim>\<open>n_epochs\<close>; but the checkpoint of epoch 2, written after the roll-back, holds the
  trained parameters 3, not the parameters 0 of the start of the run, and the last
  epoch continues from them.
\<close>

theorem c4_rollback_keeps_trained_weights:
  "map ck_epoch
       (checkpoints_of (train_fold mask_example prune_reset plain_env no_early_stopping 0))
     = [0, 1, 2, 3]
   \<and> rollbacks_of (train_fold mask_example prune_reset plain_env no_early_stopping 0) = [2]
   \<and> map ck_weights
       (checkpoints_of (train_fold mask_example prune_reset plain_env no_early_stopping 0))
     = [1, 2, 3, 4]"
  by (simp add: train_fold_def init_hyps_def init_state_def checkpoints_of_def rollbacks_of_def
        epoch_loop.simps epoch_body_def train_phase_def validation_phase_def prune_phase_def
        prune_due_def fresh_prune_dict_def apply_pruning_def retrain_pruned_def apply_mask_def
        reset_rate_def restore_state_def after_prune_channels_def load_state_dict_def
        save_checkpoint_def state_dict_def fdiv_def fne_def stop_early_def Let_def
        prune_reset_def plain_env_def plain_epoch_def no_early_stopping_def mask_example_def)


end
